theory Spec2Isabelle
  imports Complex_Main "HOL-Library.AList"
begin

section \<open>JavaScript values used by the front end\<close>

text \<open>
  A JavaScript string is modelled as a HOL \<open>string\<close>; a \<open>char\<close> stands for a
  code unit in the range 0..255.  \<open>String.prototype.trim\<close> removes the ECMAScript
  white space and line terminator code units from both ends; the ones that fit the range
  are TAB, LF, VT, FF, CR, SPACE and NBSP.
\<close>

definition isWhiteSpace :: "char \<Rightarrow> bool" where
  "isWhiteSpace c =
     (c = CHR 0x09 \<or> c = CHR 0x0A \<or> c = CHR 0x0B \<or> c = CHR 0x0C \<or> c = CHR 0x0D \<or>
      c = CHR 0x20 \<or> c = CHR 0xA0)"

definition trim :: "string \<Rightarrow> string" where
  "trim s = rev (dropWhile isWhiteSpace (rev (dropWhile isWhiteSpace s)))"

text \<open>
  A value parsed from a JSON response body.  The components store such a value in their
  \<open>error\<close> state as it comes, without converting it to a string.
\<close>

datatype json =
    JNull
  | JBool bool
  | JNum real
  | JStr string
  | JArr "json list"
  | JObj "(string \<times> json) list"

text \<open>JavaScript truthiness: \<open>null\<close>, \<open>false\<close>, \<open>0\<close> and \<open>""\<close> are falsy.\<close>

fun truthy :: "json \<Rightarrow> bool" where
  "truthy JNull = False"
| "truthy (JBool b) = b"
| "truthy (JNum n) = (n \<noteq> 0)"
| "truthy (JStr s) = (s \<noteq> [])"
| "truthy (JArr xs) = True"
| "truthy (JObj kvs) = True"

text \<open>
  What React accepts as a child of an element: strings, numbers, booleans and \<open>null\<close>,
  and arrays of such; for a plain object it throws \<open>Objects are not valid as a React child\<close>.
\<close>

fun validChild :: "json \<Rightarrow> bool" where
  "validChild (JObj kvs) = False"
| "validChild (JArr xs) = list_all validChild xs"
| "validChild JNull = True"
| "validChild (JBool b) = True"
| "validChild (JNum n) = True"
| "validChild (JStr s) = True"

text \<open>
  The value caught by \<open>catch (e)\<close> around an axios call.  \<open>err_detail\<close> is
  \<open>e?.response?.data?.detail\<close>, any JSON value (\<open>None\<close> when the optional chain
  yields \<open>undefined\<close>); \<open>err_message\<close> is \<open>e.message\<close>.
\<close>

record js_error =
  err_detail :: "json option"
  err_message :: string

text \<open>\<open>e?.response?.data?.detail || e.message\<close>.\<close>

definition errorDetail :: "js_error \<Rightarrow> json" where
  "errorDetail e =
     (case err_detail e of
        None \<Rightarrow> JStr (err_message e)
      | Some d \<Rightarrow> if truthy d then d else JStr (err_message e))"

section \<open>The chat component (\<open>Chat\<close> in App.js, \<open>CoachChat\<close>)\<close>

record chat_message =
  role :: string
  content :: string

record provider_info =
  provider :: string
  model :: string

record chat_state =
  messages :: "chat_message list"
  input :: string
  loading :: bool
  providerInfo :: "provider_info option"
  error :: "json option"

text \<open>The \<open>useState\<close> initial values.\<close>

definition chat_init :: chat_state where
  "chat_init = \<lparr>messages = [], input = [], loading = False, providerInfo = None, error = None\<rparr>"

text \<open>The body of the POST to \<open>/chat\<close>.\<close>

record chat_request =
  req_messages :: "chat_message list"
  req_temperature :: real
  req_max_tokens :: nat

text \<open>The part of a 200 response that the component reads: \<open>data.message\<close>.\<close>

record chat_response =
  resp_message :: chat_message

text \<open>
  \<open>sendMessage\<close> up to its \<open>await\<close>: the guard, the four state updates, and the
  request it issues (\<open>None\<close> when it returns early).
\<close>

definition sendMessage_start :: "chat_state \<Rightarrow> chat_state \<times> chat_request option" where
  "sendMessage_start st =
     (if trim (input st) = [] \<or> loading st then (st, None)
      else
        let newMsgs = messages st @ [\<lparr>role = ''user'', content = trim (input st)\<rparr>]
        in (st\<lparr>messages := newMsgs, input := [], loading := True, error := None\<rparr>,
            Some \<lparr>req_messages = newMsgs, req_temperature = 0.7, req_max_tokens = 600\<rparr>))"

text \<open>
  \<open>sendMessage\<close> after the \<open>await\<close>: \<open>newMsgs\<close> is the list captured before
  the request, the outcome is the resolved response or the caught error, and the
  \<open>finally\<close> block clears \<open>loading\<close> in both cases.
\<close>

definition sendMessage_finish ::
    "chat_message list \<Rightarrow> js_error + chat_response \<Rightarrow> chat_state \<Rightarrow> chat_state" where
  "sendMessage_finish newMsgs outcome st =
     (case outcome of
        Inr data \<Rightarrow> st\<lparr>messages := newMsgs @ [resp_message data], loading := False\<rparr>
      | Inl e \<Rightarrow> st\<lparr>error := Some (errorDetail e), loading := False\<rparr>)"

text \<open>
  The slot \<open>{error && <div className="error">{error}</div>}\<close>: for a truthy
  \<open>error\<close> the element with \<open>error\<close> as its child; for a falsy one the value
  itself, of which React shows nothing, except the number 0, which it shows as text.
\<close>

datatype error_slot = NoElement | BareZero | ErrorElement json

text \<open>
  The element tree the component returns, as far as the state decides it.  Building the
  tree does not look into \<open>error\<close>; React does when it commits the tree.
\<close>

record chat_view =
  view_provider :: string
  view_greeting :: bool
  view_bubbles :: "(string \<times> string) list"
  view_typing :: bool
  view_error :: error_slot
  view_send_disabled :: bool
  view_send_label :: string

definition render :: "chat_state \<Rightarrow> chat_view" where
  "render st =
     \<lparr>view_provider =
        ''Provider: '' @
        (case providerInfo st of
           None \<Rightarrow> ''unknown''
         | Some p \<Rightarrow> if provider p = [] then ''unknown'' else provider p) @
        '' ('' @
        (case providerInfo st of
           None \<Rightarrow> ''-''
         | Some p \<Rightarrow> if model p = [] then ''-'' else model p) @ '')'',
      view_greeting = (length (messages st) = 0),
      view_bubbles =
        map (\<lambda>m. (if role m = ''user'' then ''user msg'' else ''assistant msg'', content m))
          (messages st),
      view_typing = loading st,
      view_error =
        (case error st of
           None \<Rightarrow> NoElement
         | Some v \<Rightarrow>
             if truthy v then ErrorElement v else if v = JNum 0 then BareZero else NoElement),
      view_send_disabled = (loading st \<or> trim (input st) = []),
      view_send_label = (if loading st then ''...'' else ''Send'')\<rparr>"

text \<open>
  React committing the tree: it throws when the child of the error element is not a valid
  child, and there is no error boundary above the component.
\<close>

datatype react_error = ObjectNotValidAsChild

definition reconcile :: "chat_view \<Rightarrow> react_error + chat_view" where
  "reconcile v =
     (case view_error v of
        ErrorElement c \<Rightarrow> if validChild c then Inr v else Inl ObjectNotValidAsChild
      | BareZero \<Rightarrow> Inr v
      | NoElement \<Rightarrow> Inr v)"

text \<open>
  The component over time.  An event handler runs against the state of the latest render:
  \<open>TypeInput\<close> is the \<open>onChange\<close> of the text area, \<open>PressSend\<close> a click on the
  button or Enter in the text area (the key handler calls \<open>sendMessage\<close> whether or not
  the button is disabled), \<open>Settle\<close> the response or failure of the oldest POST in
  flight, \<open>ProviderLoaded\<close> the answer to \<open>fetchProvider\<close>.  The \<open>inflight\<close> list
  holds, oldest first, the captured \<open>newMsgs\<close> of every POST that has been issued and
  not yet settled.
\<close>

record chat_ui =
  ui :: chat_state
  inflight :: "chat_message list list"

datatype chat_event =
    TypeInput string
  | PressSend
  | Settle "js_error + chat_response"
  | ProviderLoaded provider_info

definition chat_ui_init :: chat_ui where
  "chat_ui_init = \<lparr>ui = chat_init, inflight = []\<rparr>"

fun chat_step :: "chat_ui \<Rightarrow> chat_event \<Rightarrow> chat_ui" where
  "chat_step s (TypeInput v) = s\<lparr>ui := (ui s)\<lparr>input := v\<rparr>\<rparr>"
| "chat_step s PressSend =
     (case sendMessage_start (ui s) of
        (st, None) \<Rightarrow> s\<lparr>ui := st\<rparr>
      | (st, Some r) \<Rightarrow> s\<lparr>ui := st, inflight := inflight s @ [req_messages r]\<rparr>)"
| "chat_step s (Settle outcome) =
     (case inflight s of
        [] \<Rightarrow> s
      | newMsgs # rest \<Rightarrow> s\<lparr>ui := sendMessage_finish newMsgs outcome (ui s), inflight := rest\<rparr>)"
| "chat_step s (ProviderLoaded p) = s\<lparr>ui := (ui s)\<lparr>providerInfo := Some p\<rparr>\<rparr>"

definition chat_run :: "chat_event list \<Rightarrow> chat_ui" where
  "chat_run evs = foldl chat_step chat_ui_init evs"

text \<open>
  The invariant of the component: at most one POST is in flight, and \<open>loading\<close> is
  true exactly while one is.
\<close>

definition chat_inv :: "chat_ui \<Rightarrow> bool" where
  "chat_inv s = (length (inflight s) \<le> 1 \<and> loading (ui s) = (inflight s \<noteq> []))"

section \<open>The story editor (\<open>StoryEditor\<close>)\<close>

text \<open>
  A JavaScript object with string values is a list of key/value pairs in property order;
  the spread \<open>{...sections, [key]: value}\<close> is \<open>AList.update key value sections\<close>.
\<close>

type_synonym js_object = "(string \<times> string) list"

definition defaultSections :: js_object where
  "defaultSections =
     [(''guidingNarrative'', []), (''turningPoints'', []), (''emergingThemes'', []),
      (''uniqueStrengths'', []), (''futureVision'', [])]"

text \<open>
  The story document as the editor reads it from a response body \<open>data\<close>:
  \<open>data_sections\<close> is \<open>None\<close> when \<open>data.sections\<close> is falsy,
  \<open>data_resonanceScore\<close> is \<open>None\<close> when \<open>typeof data.resonanceScore\<close> is
  not \<open>"number"\<close>.
\<close>

record story_data =
  storyId :: string
  version :: nat
  data_sections :: "js_object option"
  data_resonanceScore :: "real option"

record editor_state =
  clientId :: string
  story :: "story_data option"
  sections :: js_object
  resonance :: real
  saving :: bool
  lastSaved :: "nat option"
  editor_error :: "json option"

definition editor_init :: editor_state where
  "editor_init =
     \<lparr>clientId = [], story = None, sections = defaultSections, resonance = 5,
      saving = False, lastSaved = None, editor_error = None\<rparr>"

text \<open>
  What the first effect reads from the browser besides \<open>localStorage\<close>:
  \<open>randomUUID\<close> is \<open>None\<close> when \<open>crypto && crypto.randomUUID\<close> is falsy and
  otherwise holds the value the call returns; \<open>mathRandom36\<close> is the string
  \<open>Math.random().toString(36)\<close>.
\<close>

record js_env =
  randomUUID :: "string option"
  mathRandom36 :: string

type_synonym local_storage = "(string \<times> string) list"

definition getItem :: "local_storage \<Rightarrow> string \<Rightarrow> string option" where
  "getItem ls k = map_of ls k"

definition setItem :: "local_storage \<Rightarrow> string \<Rightarrow> string \<Rightarrow> local_storage" where
  "setItem ls k v = AList.update k v ls"

text \<open>
  The first \<open>useEffect\<close>: read \<open>client_id\<close>, generate and store one when the item is
  missing or empty.  The result is the storage afterwards and the value passed to
  \<open>setClientId\<close>.
\<close>

definition generateClientId :: "js_env \<Rightarrow> string" where
  "generateClientId env =
     (case randomUUID env of Some u \<Rightarrow> u | None \<Rightarrow> drop 2 (mathRandom36 env))"

definition clientIdEffect :: "js_env \<Rightarrow> local_storage \<Rightarrow> local_storage \<times> string" where
  "clientIdEffect env ls =
     (case getItem ls ''client_id'' of
        Some c \<Rightarrow>
          if c = [] then (setItem ls ''client_id'' (generateClientId env), generateClientId env)
          else (ls, c)
      | None \<Rightarrow> (setItem ls ''client_id'' (generateClientId env), generateClientId env))"

text \<open>The bodies of the two requests the editor sends.\<close>

record init_request =
  init_clientId :: string

record save_request =
  save_storyId :: string
  save_clientId :: string
  save_sections :: js_object
  save_resonanceScore :: real

datatype http_request = InitReq init_request | SaveReq save_request

text \<open>The second \<open>useEffect\<close>, up to its \<open>await\<close> and after it.\<close>

definition initEffect_start :: "editor_state \<Rightarrow> init_request option" where
  "initEffect_start st =
     (if clientId st = [] then None else Some \<lparr>init_clientId = clientId st\<rparr>)"

definition initEffect_finish :: "js_error + story_data \<Rightarrow> editor_state \<Rightarrow> editor_state" where
  "initEffect_finish outcome st =
     (case outcome of
        Inr data \<Rightarrow>
          st\<lparr>story := Some data,
             sections := (case data_sections data of Some s \<Rightarrow> s | None \<Rightarrow> defaultSections),
             resonance := (case data_resonanceScore data of Some r \<Rightarrow> r | None \<Rightarrow> resonance st)\<rparr>
      | Inl e \<Rightarrow> st\<lparr>editor_error := Some (errorDetail e)\<rparr>)"

text \<open>The argument \<open>next\<close> of \<open>save\<close>.\<close>

record save_next =
  next_sections :: js_object
  next_resonance :: real

text \<open>
  \<open>save\<close> up to its \<open>await\<close>.  The function is called from a timer, so the values
  of \<open>story\<close> and \<open>clientId\<close> it reads are those of the render that created it
  (\<open>cl\<close>), while its state updates apply to the current state \<open>st\<close>.
\<close>

definition save_start ::
    "editor_state \<Rightarrow> save_next \<Rightarrow> editor_state \<Rightarrow> editor_state \<times> save_request option" where
  "save_start cl nxt st =
     (case story cl of
        None \<Rightarrow> (st, None)
      | Some doc \<Rightarrow>
          (st\<lparr>saving := True, editor_error := None\<rparr>,
           Some \<lparr>save_storyId = storyId doc, save_clientId = clientId cl,
                 save_sections = next_sections nxt, save_resonanceScore = next_resonance nxt\<rparr>))"

text \<open>
  \<open>save\<close> after the \<open>await\<close>; \<open>now\<close> is the value of \<open>new Date()\<close>.  The
  \<open>finally\<close> block clears \<open>saving\<close> in both cases.
\<close>

definition save_finish :: "js_error + story_data \<Rightarrow> nat \<Rightarrow> editor_state \<Rightarrow> editor_state" where
  "save_finish outcome now st =
     (case outcome of
        Inr data \<Rightarrow> st\<lparr>story := Some data, lastSaved := Some now, saving := False\<rparr>
      | Inl e \<Rightarrow> st\<lparr>editor_error := Some (errorDetail e), saving := False\<rparr>)"

text \<open>
  The editor in its browser.  \<open>storage\<close> outlives page loads, as does the log
  \<open>requests\<close> of every request sent; everything else belongs to one page load.
  \<open>timer\<close> is the pending debounce timer of \<open>useDebounced\<close> with the \<open>save\<close>
  closure (the state of the render in which the change handler ran) and the argument it
  will pass.  \<open>Mount\<close> is a page load: the state starts from its initial values, the
  first effect runs and sets \<open>clientId\<close>, and the second effect runs for that value;
  timers and responses of an earlier page load are gone.  \<open>Change\<close> and \<open>ResChange\<close>
  are \<open>onChange\<close> and \<open>onResChange\<close>, \<open>TimerFires\<close> the expiry of the debounce
  timer, \<open>InitSettles\<close> and \<open>SaveSettles\<close> the outcome of a request in flight.
\<close>

record editor_ui =
  storage :: local_storage
  requests :: "http_request list"
  ed :: editor_state
  init_inflight :: bool
  timer :: "(editor_state \<times> save_next) option"
  saves_inflight :: nat

datatype editor_event =
    Mount js_env
  | InitSettles "js_error + story_data"
  | Change string string
  | ResChange real
  | TimerFires
  | SaveSettles "js_error + story_data" nat

definition editor_ui_init :: "local_storage \<Rightarrow> editor_ui" where
  "editor_ui_init ls =
     \<lparr>storage = ls, requests = [], ed = editor_init, init_inflight = False, timer = None,
      saves_inflight = 0\<rparr>"

fun editor_step :: "editor_ui \<Rightarrow> editor_event \<Rightarrow> editor_ui" where
  "editor_step s (Mount env) =
     (case clientIdEffect env (storage s) of
        (ls, cid) \<Rightarrow>
          (case initEffect_start (editor_init\<lparr>clientId := cid\<rparr>) of
             None \<Rightarrow>
               \<lparr>storage = ls, requests = requests s, ed = editor_init\<lparr>clientId := cid\<rparr>,
                init_inflight = False, timer = None, saves_inflight = 0\<rparr>
           | Some r \<Rightarrow>
               \<lparr>storage = ls, requests = requests s @ [InitReq r],
                ed = editor_init\<lparr>clientId := cid\<rparr>,
                init_inflight = True, timer = None, saves_inflight = 0\<rparr>))"
| "editor_step s (InitSettles outcome) =
     (if init_inflight s
      then s\<lparr>ed := initEffect_finish outcome (ed s), init_inflight := False\<rparr>
      else s)"
| "editor_step s (Change key v) =
     (let nextSections = AList.update key v (sections (ed s))
      in s\<lparr>ed := (ed s)\<lparr>sections := nextSections\<rparr>,
           timer := Some (ed s, \<lparr>next_sections = nextSections,
                                 next_resonance = resonance (ed s)\<rparr>)\<rparr>)"
| "editor_step s (ResChange v) =
     s\<lparr>ed := (ed s)\<lparr>resonance := v\<rparr>,
       timer := Some (ed s, \<lparr>next_sections = sections (ed s), next_resonance = v\<rparr>)\<rparr>"
| "editor_step s TimerFires =
     (case timer s of
        None \<Rightarrow> s
      | Some (cl, nxt) \<Rightarrow>
          (case save_start cl nxt (ed s) of
             (st, None) \<Rightarrow> s\<lparr>ed := st, timer := None\<rparr>
           | (st, Some r) \<Rightarrow>
               s\<lparr>ed := st, timer := None, requests := requests s @ [SaveReq r],
                 saves_inflight := Suc (saves_inflight s)\<rparr>))"
| "editor_step s (SaveSettles outcome now) =
     (if saves_inflight s = 0 then s
      else s\<lparr>ed := save_finish outcome now (ed s), saves_inflight := saves_inflight s - 1\<rparr>)"

definition editor_run :: "local_storage \<Rightarrow> editor_event list \<Rightarrow> editor_ui" where
  "editor_run ls evs = foldl editor_step (editor_ui_init ls) evs"

text \<open>The client id a request carries.\<close>

fun request_clientId :: "http_request \<Rightarrow> string" where
  "request_clientId (InitReq r) = init_clientId r"
| "request_clientId (SaveReq r) = save_clientId r"

text \<open>
  The textual form of a UUID: 36 characters, hyphens at positions 8, 13, 18 and 23,
  hexadecimal digits elsewhere.
\<close>

definition isHexDigit :: "char \<Rightarrow> bool" where
  "isHexDigit c = (c \<in> set ''0123456789abcdefABCDEF'')"

definition isUUID :: "string \<Rightarrow> bool" where
  "isUUID s =
     (length s = 36 \<and>
      list_all (\<lambda>i. if i = 8 \<or> i = 13 \<or> i = 18 \<or> i = 23 then s ! i = CHR ''-''
                     else isHexDigit (s ! i)) [0..<36])"

text \<open>The value stored under \<open>client_id\<close>, the empty string when there is none.\<close>

definition storedClientId :: "local_storage \<Rightarrow> string" where
  "storedClientId ls = (case getItem ls ''client_id'' of None \<Rightarrow> [] | Some c \<Rightarrow> c)"

text \<open>The version badge \<open>{story && <span className="ver">v{story.version}</span>}\<close>.\<close>

definition versionBadge :: "editor_state \<Rightarrow> nat option" where
  "versionBadge st = (case story st of None \<Rightarrow> None | Some doc \<Rightarrow> Some (version doc))"

text \<open>
  The invariant of the editor: the \<open>clientId\<close> state is empty or the stored value; it
  is not empty once a story is loaded or a request is in flight; a pending \<open>save\<close>
  closure has the \<open>clientId\<close> of the current state; and every request sent carries
  the stored value.
\<close>

definition editor_inv :: "editor_ui \<Rightarrow> bool" where
  "editor_inv s =
     ((clientId (ed s) = [] \<or> clientId (ed s) = storedClientId (storage s)) \<and>
      (story (ed s) \<noteq> None \<longrightarrow> clientId (ed s) \<noteq> []) \<and>
      (init_inflight s \<longrightarrow> clientId (ed s) \<noteq> []) \<and>
      (0 < saves_inflight s \<longrightarrow> clientId (ed s) \<noteq> []) \<and>
      (\<forall>cl nxt. timer s = Some (cl, nxt) \<longrightarrow> clientId cl = clientId (ed s)) \<and>
      (\<forall>cl nxt. timer s = Some (cl, nxt) \<longrightarrow> story cl \<noteq> None \<longrightarrow> clientId (ed s) \<noteq> []) \<and>
      (requests s \<noteq> [] \<longrightarrow> storedClientId (storage s) \<noteq> []) \<and>
      (\<forall>r \<in> set (requests s). request_clientId r = storedClientId (storage s)))"

text \<open>
  A save request has been or can still be issued: a story is loaded, the pending closure
  holds one, a save is in flight or one is in the log.
\<close>

definition save_possible :: "editor_ui \<Rightarrow> bool" where
  "save_possible s =
     (story (ed s) \<noteq> None \<or>
      (case timer s of None \<Rightarrow> False | Some (cl, nxt) \<Rightarrow> story cl \<noteq> None) \<or>
      0 < saves_inflight s \<or>
      list_ex (\<lambda>r. case r of SaveReq x \<Rightarrow> True | InitReq x \<Rightarrow> False) (requests s))"

section \<open>The provider registry\<close>

text \<open>
  Modelled from the spec: the back end (\<open>backend/server.py\<close>) is not among the
  sources, so the provider registry, the story store and the story service below follow
  sections 3, 4.1, 4.4 and 4.5 of the specification.
\<close>

datatype provider_name = openai | anthropic | gemini

text \<open>
  Modelled from the spec: \<open>ProviderConfig\<close>.  A credential that is not present is
  \<open>None\<close>.
\<close>

record provider_config =
  selected :: "provider_name option"
  openaiKey :: "string option"
  anthropicKey :: "string option"
  googleKey :: "string option"

text \<open>
  Modelled from the spec: the error taxonomy of section 7.
  \<open>ConfigurationError p\<close> stands for \<open>ConfigurationError("Missing <PROVIDER>_API_KEY")\<close>
  naming the provider \<open>p\<close>; \<open>ProviderError\<close> carries the HTTP status and the message.
\<close>

datatype service_error =
    ConfigurationError provider_name
  | ProviderError nat string
  | ValidationError
  | NotFoundError
  | AuthorizationError

text \<open>Modelled from the spec: the credential that corresponds to a provider.\<close>

fun credential :: "provider_config \<Rightarrow> provider_name \<Rightarrow> string option" where
  "credential cfg openai = openaiKey cfg"
| "credential cfg anthropic = anthropicKey cfg"
| "credential cfg gemini = googleKey cfg"

text \<open>Modelled from the spec: a credential is present.\<close>

definition credentialPresent :: "provider_config \<Rightarrow> provider_name \<Rightarrow> bool" where
  "credentialPresent cfg p = (credential cfg p \<noteq> None)"

text \<open>Modelled from the spec: the fixed priority order of section 4.1, step 2.\<close>

definition priorityOrder :: "provider_name list" where
  "priorityOrder = [openai, anthropic, gemini]"

text \<open>
  Modelled from the spec: steps 2 and 3 of the selection algorithm of section 4.1, the
  scan in priority order and the failure that names the provider that would have been
  used.
\<close>

definition scanCredentials :: "provider_config \<Rightarrow> service_error + provider_name" where
  "scanCredentials cfg =
     (case find (credentialPresent cfg) priorityOrder of
        Some q \<Rightarrow> Inr q
      | None \<Rightarrow>
          Inl (ConfigurationError (case selected cfg of Some p \<Rightarrow> p | None \<Rightarrow> openai)))"

text \<open>
  Modelled from the spec: \<open>resolve\<close>, step 1 of the selection algorithm of section 4.1
  and then the scan.
\<close>

definition resolve :: "provider_config \<Rightarrow> service_error + provider_name" where
  "resolve cfg =
     (case selected cfg of
        Some p \<Rightarrow> if credentialPresent cfg p then Inr p else scanCredentials cfg
      | None \<Rightarrow> scanCredentials cfg)"

section \<open>The story store and the story service\<close>

type_synonym uuid = string

text \<open>Modelled from the spec: the fixed section-key set of \<open>StoryDocument\<close>.\<close>

definition sectionKeys :: "string list" where
  "sectionKeys =
     [''guidingNarrative'', ''turningPoints'', ''emergingThemes'', ''uniqueStrengths'',
      ''futureVision'']"

text \<open>
  Modelled from the spec: the text of a section, where a missing key defaults to the
  empty string.
\<close>

definition sectionText :: "js_object \<Rightarrow> string \<Rightarrow> string" where
  "sectionText S k = (case map_of S k of None \<Rightarrow> [] | Some t \<Rightarrow> t)"

text \<open>
  Modelled from the spec: a history entry and \<open>StoryDocument\<close> (section 3).  The
  resonance score is a real number, time stamps are natural numbers.
\<close>

record snapshot =
  snap_version :: nat
  snap_resonanceScore :: real
  snap_sections :: js_object
  snap_timestamp :: nat

record story_document =
  doc_storyId :: uuid
  doc_clientId :: uuid
  doc_version :: nat
  doc_sections :: js_object
  doc_resonanceScore :: real
  doc_createdAt :: nat
  doc_updatedAt :: nat
  doc_history :: "snapshot list"

text \<open>
  Modelled from the spec: the document collection, treated as in section 1 as a
  collection with get and put; a lookup returns the first document that matches and a
  put replaces that document.
\<close>

type_synonym story_store = "story_document list"

fun putDocument :: "story_document \<Rightarrow> story_store \<Rightarrow> story_store" where
  "putDocument d [] = []"
| "putDocument d (x # xs) =
     (if doc_storyId x = doc_storyId d then d # xs else x # putDocument d xs)"

text \<open>Modelled from the spec: the policy default of the resonance score.\<close>

definition defaultResonance :: real where
  "defaultResonance = 7.0"

text \<open>
  Modelled from the spec: \<open>initOrFetch\<close> (section 4.4).  The generated \<open>storyId\<close> and
  the current time are arguments; the result is the store afterwards and the document
  returned.
\<close>

definition initOrFetch ::
    "story_store \<Rightarrow> uuid \<Rightarrow> uuid \<Rightarrow> nat \<Rightarrow> story_store \<times> story_document" where
  "initOrFetch store cid newId now =
     (case find (\<lambda>d. doc_clientId d = cid) store of
        Some d \<Rightarrow> (store, d)
      | None \<Rightarrow>
          (let d = \<lparr>doc_storyId = newId, doc_clientId = cid, doc_version = 1,
                    doc_sections = [], doc_resonanceScore = defaultResonance,
                    doc_createdAt = now, doc_updatedAt = now, doc_history = []\<rparr>
           in (store @ [d], d)))"

text \<open>Modelled from the spec: \<open>fetchById\<close> (section 4.4).\<close>

definition fetchById :: "story_store \<Rightarrow> uuid \<Rightarrow> service_error + story_document" where
  "fetchById store sid =
     (case find (\<lambda>d. doc_storyId d = sid) store of
        None \<Rightarrow> Inl NotFoundError
      | Some d \<Rightarrow> Inr d)"

text \<open>Modelled from the spec: the bound on the history.\<close>

definition historyBound :: nat where
  "historyBound = 10"

text \<open>
  Modelled from the spec: the truncation of the history to its last ten entries,
  dropping the oldest.
\<close>

definition truncateHistory :: "snapshot list \<Rightarrow> snapshot list" where
  "truncateHistory h = drop (length h - historyBound) h"

text \<open>
  Modelled from the spec: the history entry that \<open>StoryStore.save\<close> appends, a
  snapshot of the state before the update.  Its time stamp is the time of the save.
\<close>

definition snapshotOf :: "story_document \<Rightarrow> nat \<Rightarrow> snapshot" where
  "snapshotOf d now =
     \<lparr>snap_version = doc_version d, snap_resonanceScore = doc_resonanceScore d,
      snap_sections = doc_sections d, snap_timestamp = now\<rparr>"

text \<open>
  Modelled from the spec: the document that \<open>StoryStore.save\<close> writes: the snapshot
  appended and the history truncated, sections and score replaced, the version
  incremented by one, \<open>updatedAt\<close> set.
\<close>

definition updatedDocument :: "story_document \<Rightarrow> js_object \<Rightarrow> real \<Rightarrow> nat \<Rightarrow> story_document" where
  "updatedDocument d S R now =
     d\<lparr>doc_history := truncateHistory (doc_history d @ [snapshotOf d now]),
       doc_sections := S, doc_resonanceScore := R,
       doc_version := doc_version d + 1, doc_updatedAt := now\<rparr>"

text \<open>
  Modelled from the spec: \<open>StoryStore.save\<close> (section 4.4): not found, then the
  ownership check, then the update, which is persisted and returned.
\<close>

definition storyStore_save ::
    "story_store \<Rightarrow> uuid \<Rightarrow> uuid \<Rightarrow> js_object \<Rightarrow> real \<Rightarrow> nat \<Rightarrow>
     service_error + story_store \<times> story_document" where
  "storyStore_save store sid cid S R now =
     (case find (\<lambda>d. doc_storyId d = sid) store of
        None \<Rightarrow> Inl NotFoundError
      | Some d \<Rightarrow>
          if doc_clientId d \<noteq> cid then Inl AuthorizationError
          else Inr (putDocument (updatedDocument d S R now) store, updatedDocument d S R now))"

text \<open>
  Modelled from the spec: the validation of \<open>StoryService\<close> (section 4.5): the score
  lies in [0,10] and every section key belongs to the fixed set.
\<close>

definition validSave :: "js_object \<Rightarrow> real \<Rightarrow> bool" where
  "validSave S R = (0 \<le> R \<and> R \<le> 10 \<and> list_all (\<lambda>kv. fst kv \<in> set sectionKeys) S)"

text \<open>
  Modelled from the spec: \<open>StoryService\<close> (section 4.5), the validation in front of
  \<open>StoryStore.save\<close>.
\<close>

definition storyService_save ::
    "story_store \<Rightarrow> uuid \<Rightarrow> uuid \<Rightarrow> js_object \<Rightarrow> real \<Rightarrow> nat \<Rightarrow>
     service_error + story_store \<times> story_document" where
  "storyService_save store sid cid S R now =
     (if validSave S R then storyStore_save store sid cid S R now else Inl ValidationError)"

text \<open>
  Modelled from the spec: a sequence of save operations on one document, each with its
  sections, score and time; it stops at the first save that fails.
\<close>

fun saveAll ::
    "story_store \<Rightarrow> uuid \<Rightarrow> uuid \<Rightarrow> (js_object \<times> real \<times> nat) list \<Rightarrow>
     service_error + story_store" where
  "saveAll store sid cid [] = Inr store"
| "saveAll store sid cid ((S, R, now) # rest) =
     (case storyStore_save store sid cid S R now of
        Inl e \<Rightarrow> Inl e
      | Inr (store', d) \<Rightarrow> saveAll store' sid cid rest)"

text \<open>
  Modelled from the spec: the document after a sequence of successful saves, each save
  applying the update of \<open>StoryStore.save\<close>.
\<close>

fun savedDocument :: "story_document \<Rightarrow> (js_object \<times> real \<times> nat) list \<Rightarrow> story_document" where
  "savedDocument d [] = d"
| "savedDocument d ((S, R, now) # rest) = savedDocument (updatedDocument d S R now) rest"

text \<open>
  Modelled from the spec: the snapshots that a sequence of successful saves takes, in the
  order of the saves.
\<close>

fun snapshots :: "story_document \<Rightarrow> (js_object \<times> real \<times> nat) list \<Rightarrow> snapshot list" where
  "snapshots d [] = []"
| "snapshots d ((S, R, now) # rest) = snapshotOf d now # snapshots (updatedDocument d S R now) rest"

section \<open>Properties of the chat component\<close>

subsection \<open>Trimming\<close>

lemma last_dropWhile: "dropWhile P xs \<noteq> [] \<Longrightarrow> last (dropWhile P xs) = last xs"
  by (induction xs) auto

lemma trim_last: "trim s \<noteq> [] \<Longrightarrow> \<not> isWhiteSpace (last (trim s))"
  unfolding trim_def by (simp add: last_rev hd_dropWhile)

lemma trim_hd: "trim s \<noteq> [] \<Longrightarrow> \<not> isWhiteSpace (hd (trim s))"
proof -
  assume ne: "trim s \<noteq> []"
  let ?t = "dropWhile isWhiteSpace s"
  from ne have d: "dropWhile isWhiteSpace (rev ?t) \<noteq> []" by (simp add: trim_def)
  have t: "?t \<noteq> []"
  proof
    assume "?t = []"
    then have "dropWhile isWhiteSpace (rev ?t) = []" by (simp only: rev.simps dropWhile.simps)
    with d show False by contradiction
  qed
  have "hd (trim s) = last (dropWhile isWhiteSpace (rev ?t))"
    using d by (simp add: trim_def hd_rev)
  also have "\<dots> = last (rev ?t)" using d by (rule last_dropWhile)
  also have "\<dots> = hd ?t" using t by (simp add: last_rev)
  finally show ?thesis using t by (simp add: hd_dropWhile)
qed

subsection \<open>The request that \<open>sendMessage\<close> issues\<close>

lemma sendMessage_start_skip:
  "trim (input st) = [] \<or> loading st \<Longrightarrow> sendMessage_start st = (st, None)"
  by (simp add: sendMessage_start_def)

lemma sendMessage_start_send:
  "trim (input st) \<noteq> [] \<Longrightarrow> \<not> loading st \<Longrightarrow>
   sendMessage_start st =
     (st\<lparr>messages := messages st @ [\<lparr>role = ''user'', content = trim (input st)\<rparr>],
         input := [], loading := True, error := None\<rparr>,
      Some \<lparr>req_messages = messages st @ [\<lparr>role = ''user'', content = trim (input st)\<rparr>],
            req_temperature = 0.7, req_max_tokens = 600\<rparr>)"
  by (simp add: sendMessage_start_def Let_def)

text \<open>
  Claim C7, as stated, says that \<open>sendMessage\<close> sends a request whenever the input is
  not blank.  It does not while a request is in flight: after typing \<open>a\<close>, sending,
  and typing \<open>hi\<close>, the input is not blank and \<open>sendMessage\<close> issues nothing.
\<close>

theorem sendMessage_nonblank_not_sent:
  "trim (input (ui (chat_run [TypeInput ''a'', PressSend, TypeInput ''hi'']))) \<noteq> [] \<and>
   snd (sendMessage_start (ui (chat_run [TypeInput ''a'', PressSend, TypeInput ''hi'']))) = None"
  by (simp add: chat_run_def chat_ui_init_def chat_init_def sendMessage_start_def trim_def
      isWhiteSpace_def Let_def)

text \<open>
  Claim C7, amended: \<open>sendMessage\<close> issues no request when the input is empty or
  white space only, and none while a request is in flight (\<open>loading\<close>); otherwise it
  sends the prior conversation followed by exactly one message of role \<open>user\<close> whose
  content is the trimmed input.  Hence every request it sends has a non-empty message
  list whose last message is a user message with non-empty content that neither starts
  nor ends with white space.
\<close>

theorem sendMessage_request_shape:
  "(trim (input st) = [] \<longrightarrow> snd (sendMessage_start st) = None) \<and>
   (loading st \<longrightarrow> snd (sendMessage_start st) = None) \<and>
   (trim (input st) \<noteq> [] \<and> \<not> loading st \<longrightarrow>
      snd (sendMessage_start st) =
        Some \<lparr>req_messages = messages st @ [\<lparr>role = ''user'', content = trim (input st)\<rparr>],
              req_temperature = 0.7, req_max_tokens = 600\<rparr>) \<and>
   (\<forall>r. snd (sendMessage_start st) = Some r \<longrightarrow>
      req_messages r \<noteq> [] \<and>
      butlast (req_messages r) = messages st \<and>
      role (last (req_messages r)) = ''user'' \<and>
      content (last (req_messages r)) = trim (input st) \<and>
      content (last (req_messages r)) \<noteq> [] \<and>
      \<not> isWhiteSpace (hd (content (last (req_messages r)))) \<and>
      \<not> isWhiteSpace (last (content (last (req_messages r)))))"
proof (cases "trim (input st) = [] \<or> loading st")
  case True
  then show ?thesis by (auto simp: sendMessage_start_skip)
next
  case False
  then have ne: "trim (input st) \<noteq> []" and nl: "\<not> loading st" by auto
  show ?thesis
    using ne nl trim_hd [OF ne] trim_last [OF ne]
    by (simp add: sendMessage_start_send)
qed

theorem sendMessage_request_shape_witness:
  "snd (sendMessage_start \<lparr>messages = [\<lparr>role = ''assistant'', content = ''Hello''\<rparr>],
          input = '' hi  '', loading = False, providerInfo = None, error = None\<rparr>) =
     Some \<lparr>req_messages = [\<lparr>role = ''assistant'', content = ''Hello''\<rparr>,
                           \<lparr>role = ''user'', content = ''hi''\<rparr>],
           req_temperature = 0.7, req_max_tokens = 600\<rparr>"
  using sendMessage_request_shape
    [of "\<lparr>messages = [\<lparr>role = ''assistant'', content = ''Hello''\<rparr>],
          input = '' hi  '', loading = False, providerInfo = None, error = None\<rparr>"]
  by (simp add: trim_def isWhiteSpace_def)


subsection \<open>A failed request\<close>

lemma errorDetail_string:
  "err_detail e = Some (JStr d) \<Longrightarrow> d \<noteq> [] \<Longrightarrow> errorDetail e = JStr d"
  by (simp add: errorDetail_def)

lemma errorDetail_message:
  "err_detail e = None \<or> (\<exists>d. err_detail e = Some d \<and> \<not> truthy d) \<Longrightarrow> errorDetail e = JStr (err_message e)"
  by (auto simp: errorDetail_def)

lemma errorDetail_truthy: "truthy (errorDetail e) = (errorDetail e \<noteq> JStr [])"
  by (cases "err_detail e") (auto simp: errorDetail_def)

lemma failed_view_error:
  "view_error (render (sendMessage_finish newMsgs (Inl e) st)) =
     (if errorDetail e = JStr [] then NoElement else ErrorElement (errorDetail e))"
  by (simp add: sendMessage_finish_def render_def errorDetail_truthy)

lemma failed_reconcile:
  "(\<exists>x. reconcile (render (sendMessage_finish newMsgs (Inl e) st)) = Inl x) =
     (\<exists>d. err_detail e = Some d \<and> truthy d \<and> \<not> validChild d)"
proof (cases "err_detail e")
  case None
  then show ?thesis by (simp add: reconcile_def failed_view_error errorDetail_def)
next
  case (Some d)
  then show ?thesis
    by (cases "truthy d") (auto simp: reconcile_def failed_view_error errorDetail_def)
qed

text \<open>
  Claim C6, as stated, speaks of every failing POST.  The detail of a response is stored
  and rendered as it comes: for a 422 response, whose detail is a list of objects, the
  error is caught and stored, and React then throws on the object child when it commits
  the tree.
\<close>

theorem failed_chat_object_detail_throws:
  "reconcile (render (ui (chat_run [TypeInput ''Hi'', PressSend, Settle (Inl \<lparr>err_detail =
               Some (JArr [JObj [(''loc'', JArr [JStr ''body'', JStr ''messages'']),
                                 (''msg'', JStr ''field required''),
                                 (''type'', JStr ''value_error.missing'')]]),
             err_message = ''Request failed with status code 422''\<rparr>)]))) =
     Inl ObjectNotValidAsChild"
  by (simp add: chat_run_def chat_ui_init_def chat_init_def sendMessage_start_def trim_def
      isWhiteSpace_def Let_def sendMessage_finish_def errorDetail_def render_def reconcile_def)

text \<open>
  Claim C6, amended: when the POST fails, \<open>sendMessage\<close> catches the error: the
  message list and the bubbles rendered from it are the same as before the failure,
  namely the list that was sent, which ends with the user's message, and \<open>loading\<close> is
  cleared.  When the detail of the response is a non-empty string, as in the 400 and the
  502 response, \<open>error\<close> holds that string, the error element shows it, and React
  commits the tree.  When the detail is missing or falsy (the empty string), \<open>error\<close> holds
  \<open>e.message\<close>, the error element shows it unless it is empty (for an axios error it
  never is), and React commits the tree.  In general the commit throws exactly when the
  detail is a truthy value that is not a valid child.
\<close>

theorem failed_chat_shows_error:
  "messages (sendMessage_finish newMsgs (Inl e) st) = messages st \<and>
   view_bubbles (render (sendMessage_finish newMsgs (Inl e) st)) = view_bubbles (render st) \<and>
   messages (ui (chat_step s (Settle (Inl e)))) = messages (ui s) \<and>
   (\<forall>r. snd (sendMessage_start st) = Some r \<longrightarrow>
      messages (sendMessage_finish (req_messages r) (Inl e) (fst (sendMessage_start st))) =
        req_messages r) \<and>
   loading (sendMessage_finish newMsgs (Inl e) st) = False \<and>
   (\<forall>d. err_detail e = Some (JStr d) \<and> d \<noteq> [] \<longrightarrow>
      error (sendMessage_finish newMsgs (Inl e) st) = Some (JStr d) \<and>
      view_error (render (sendMessage_finish newMsgs (Inl e) st)) = ErrorElement (JStr d) \<and>
      reconcile (render (sendMessage_finish newMsgs (Inl e) st)) =
        Inr (render (sendMessage_finish newMsgs (Inl e) st))) \<and>
   (err_detail e = None \<or> (\<exists>d. err_detail e = Some d \<and> \<not> truthy d) \<longrightarrow>
      error (sendMessage_finish newMsgs (Inl e) st) = Some (JStr (err_message e)) \<and>
      view_error (render (sendMessage_finish newMsgs (Inl e) st)) =
        (if err_message e = [] then NoElement else ErrorElement (JStr (err_message e))) \<and>
      reconcile (render (sendMessage_finish newMsgs (Inl e) st)) =
        Inr (render (sendMessage_finish newMsgs (Inl e) st))) \<and>
   (\<exists>x. reconcile (render (sendMessage_finish newMsgs (Inl e) st)) = Inl x) =
     (\<exists>d. err_detail e = Some d \<and> truthy d \<and> \<not> validChild d)"
proof -
  let ?fin = "sendMessage_finish newMsgs (Inl e) st"
  have sent: "\<forall>r. snd (sendMessage_start st) = Some r \<longrightarrow>
      messages (sendMessage_finish (req_messages r) (Inl e) (fst (sendMessage_start st))) =
        req_messages r"
    by (auto simp: sendMessage_start_def sendMessage_finish_def Let_def split: if_splits)
  have m: "messages (ui (chat_step s (Settle (Inl e)))) = messages (ui s)"
    by (cases "inflight s") (simp_all add: sendMessage_finish_def)
  have rest: "messages ?fin = messages st \<and>
      view_bubbles (render ?fin) = view_bubbles (render st) \<and> loading ?fin = False"
    by (simp add: sendMessage_finish_def render_def)
  have err: "error ?fin = Some (errorDetail e)"
    by (simp add: sendMessage_finish_def)
  have str: "\<forall>d. err_detail e = Some (JStr d) \<and> d \<noteq> [] \<longrightarrow>
      error ?fin = Some (JStr d) \<and> view_error (render ?fin) = ErrorElement (JStr d) \<and>
      reconcile (render ?fin) = Inr (render ?fin)"
    by (simp add: err reconcile_def failed_view_error errorDetail_string)
  have msg: "err_detail e = None \<or> (\<exists>d. err_detail e = Some d \<and> \<not> truthy d) \<longrightarrow>
      error ?fin = Some (JStr (err_message e)) \<and>
      view_error (render ?fin) =
        (if err_message e = [] then NoElement else ErrorElement (JStr (err_message e))) \<and>
      reconcile (render ?fin) = Inr (render ?fin)"
  proof
    assume a: "err_detail e = None \<or> (\<exists>d. err_detail e = Some d \<and> \<not> truthy d)"
    have d: "errorDetail e = JStr (err_message e)" using a by (rule errorDetail_message)
    show "error ?fin = Some (JStr (err_message e)) \<and>
      view_error (render ?fin) =
        (if err_message e = [] then NoElement else ErrorElement (JStr (err_message e))) \<and>
      reconcile (render ?fin) = Inr (render ?fin)"
      by (simp add: err reconcile_def failed_view_error d)
  qed
  show ?thesis
    using m sent rest str msg failed_reconcile [of newMsgs e st] by blast
qed

theorem failed_chat_shows_error_witness:
  "view_error (render (sendMessage_finish [\<lparr>role = ''user'', content = ''Hi''\<rparr>]
      (Inl \<lparr>err_detail = Some (JStr ''Missing OPENAI_API_KEY in backend environment''),
            err_message = ''Request failed with status code 400''\<rparr>) \<lparr>messages = [\<lparr>role = ''user'', content = ''Hi''\<rparr>], input = [], loading = True,
       providerInfo = None, error = None\<rparr>)) =
     ErrorElement (JStr ''Missing OPENAI_API_KEY in backend environment'') \<and>
   reconcile (render (sendMessage_finish [\<lparr>role = ''user'', content = ''Hi''\<rparr>]
      (Inl \<lparr>err_detail = Some (JStr ''Missing OPENAI_API_KEY in backend environment''),
            err_message = ''Request failed with status code 400''\<rparr>) \<lparr>messages = [\<lparr>role = ''user'', content = ''Hi''\<rparr>], input = [], loading = True,
       providerInfo = None, error = None\<rparr>)) =
     Inr (render (sendMessage_finish [\<lparr>role = ''user'', content = ''Hi''\<rparr>]
      (Inl \<lparr>err_detail = Some (JStr ''Missing OPENAI_API_KEY in backend environment''),
            err_message = ''Request failed with status code 400''\<rparr>) \<lparr>messages = [\<lparr>role = ''user'', content = ''Hi''\<rparr>], input = [], loading = True,
       providerInfo = None, error = None\<rparr>)) \<and>
   messages (sendMessage_finish [\<lparr>role = ''user'', content = ''Hi''\<rparr>]
      (Inl \<lparr>err_detail = Some (JStr ''Missing OPENAI_API_KEY in backend environment''),
            err_message = ''Request failed with status code 400''\<rparr>) \<lparr>messages = [\<lparr>role = ''user'', content = ''Hi''\<rparr>], input = [], loading = True,
       providerInfo = None, error = None\<rparr>) = [\<lparr>role = ''user'', content = ''Hi''\<rparr>] \<and>
   view_error (render (sendMessage_finish [\<lparr>role = ''user'', content = ''Hi''\<rparr>]
      (Inl \<lparr>err_detail = None, err_message = ''Network Error''\<rparr>) \<lparr>messages = [\<lparr>role = ''user'', content = ''Hi''\<rparr>], input = [], loading = True,
       providerInfo = None, error = None\<rparr>)) =
     ErrorElement (JStr ''Network Error'')"
proof -
  let ?e = "\<lparr>err_detail = Some (JStr ''Missing OPENAI_API_KEY in backend environment''),
            err_message = ''Request failed with status code 400''\<rparr>"
  let ?n = "\<lparr>err_detail = None, err_message = ''Network Error''\<rparr>"
  let ?st = "\<lparr>messages = [\<lparr>role = ''user'', content = ''Hi''\<rparr>], input = [], loading = True,
       providerInfo = None, error = None\<rparr>"
  let ?ms = "[\<lparr>role = ''user'', content = ''Hi''\<rparr>]"
  have d: "err_detail ?e = Some (JStr ''Missing OPENAI_API_KEY in backend environment'') \<and>
      ''Missing OPENAI_API_KEY in backend environment'' \<noteq> []"
    by simp
  have n: "err_detail ?n = None \<or> (\<exists>d. err_detail ?n = Some d \<and> \<not> truthy d)" by simp
  have shown: "view_error (render (sendMessage_finish ?ms (Inl ?e) ?st)) =
      ErrorElement (JStr ''Missing OPENAI_API_KEY in backend environment'') \<and>
    reconcile (render (sendMessage_finish ?ms (Inl ?e) ?st)) =
      Inr (render (sendMessage_finish ?ms (Inl ?e) ?st))"
    using d failed_chat_shows_error [of ?ms ?e ?st chat_ui_init] by blast
  have "messages (sendMessage_finish ?ms (Inl ?e) ?st) = messages ?st"
    using failed_chat_shows_error [of ?ms ?e ?st chat_ui_init] by blast
  then have kept: "messages (sendMessage_finish ?ms (Inl ?e) ?st) = ?ms" by simp
  have "view_error (render (sendMessage_finish ?ms (Inl ?n) ?st)) =
      (if err_message ?n = [] then NoElement else ErrorElement (JStr (err_message ?n)))"
    using n failed_chat_shows_error [of ?ms ?n ?st chat_ui_init] by blast
  then have network: "view_error (render (sendMessage_finish ?ms (Inl ?n) ?st)) =
      ErrorElement (JStr ''Network Error'')"
    by simp
  show ?thesis using shown kept network by blast
qed

subsection \<open>One request at a time\<close>

lemma chat_inv_init: "chat_inv chat_ui_init"
  by (simp add: chat_inv_def chat_ui_init_def chat_init_def)

lemma chat_inv_step: "chat_inv s \<Longrightarrow> chat_inv (chat_step s ev)"
proof (cases ev)
  case (TypeInput v)
  assume "chat_inv s" then show ?thesis using TypeInput by (simp add: chat_inv_def)
next
  case PressSend
  assume "chat_inv s" then show ?thesis using PressSend
    by (auto simp: chat_inv_def sendMessage_start_def Let_def)
next
  case (Settle outcome)
  assume "chat_inv s" then show ?thesis using Settle
    by (cases "inflight s"; cases outcome) (auto simp: chat_inv_def sendMessage_finish_def)
next
  case (ProviderLoaded p)
  assume "chat_inv s" then show ?thesis using ProviderLoaded by (simp add: chat_inv_def)
qed

lemma chat_inv_foldl: "chat_inv s \<Longrightarrow> chat_inv (foldl chat_step s evs)"
  by (induction evs arbitrary: s) (simp_all add: chat_inv_step)

lemma chat_inv_run: "chat_inv (chat_run evs)"
  unfolding chat_run_def by (rule chat_inv_foldl [OF chat_inv_init])

lemma loading_cleared_only_by_settle:
  "loading (ui s) \<Longrightarrow> \<not> loading (ui (chat_step s ev)) \<Longrightarrow> \<exists>outcome. ev = Settle outcome"
  by (cases ev) (auto simp: sendMessage_start_def)

lemma settle_clears_loading:
  "inflight s \<noteq> [] \<Longrightarrow> \<not> loading (ui (chat_step s (Settle outcome)))"
  by (cases "inflight s"; cases outcome) (auto simp: sendMessage_finish_def)

text \<open>
  Claim C9: in every state the component reaches, at most one chat request is in flight,
  and \<open>loading\<close> is true exactly when one is.  While \<open>loading\<close> is true,
  \<open>sendMessage\<close> changes nothing and issues no request, and the send button is
  disabled.  From a state where \<open>loading\<close> is true, the next event clears it exactly
  when that event is the settling (success or failure) of the request; from a state where
  it is false, the next event sets it exactly when that event is a send with a non-blank
  input.
\<close>

theorem chat_single_flight:
  "length (inflight (chat_run evs)) \<le> 1 \<and>
   loading (ui (chat_run evs)) = (length (inflight (chat_run evs)) = 1) \<and>
   (loading (ui (chat_run evs)) \<longrightarrow>
      chat_step (chat_run evs) PressSend = chat_run evs \<and>
      sendMessage_start (ui (chat_run evs)) = (ui (chat_run evs), None) \<and>
      view_send_disabled (render (ui (chat_run evs)))) \<and>
   (loading (ui (chat_run evs)) \<longrightarrow>
      (\<not> loading (ui (chat_step (chat_run evs) ev))) = (\<exists>outcome. ev = Settle outcome)) \<and>
   (\<not> loading (ui (chat_run evs)) \<longrightarrow>
      loading (ui (chat_step (chat_run evs) ev)) =
        (ev = PressSend \<and> trim (input (ui (chat_run evs))) \<noteq> []))"
proof -
  let ?s = "chat_run evs"
  have inv: "chat_inv ?s" by (rule chat_inv_run)
  then have a: "length (inflight ?s) \<le> 1" and b: "loading (ui ?s) = (inflight ?s \<noteq> [])"
    by (simp_all add: chat_inv_def)
  have b': "loading (ui ?s) = (length (inflight ?s) = 1)"
    using a b by (cases "inflight ?s") auto
  have c: "loading (ui ?s) \<longrightarrow>
      chat_step ?s PressSend = ?s \<and> sendMessage_start (ui ?s) = (ui ?s, None) \<and>
      view_send_disabled (render (ui ?s))"
    by (simp add: sendMessage_start_def render_def)
  have d: "loading (ui ?s) \<longrightarrow>
      (\<not> loading (ui (chat_step ?s ev))) = (\<exists>outcome. ev = Settle outcome)"
    using b loading_cleared_only_by_settle [of ?s ev] settle_clears_loading [of ?s]
    by blast
  have e: "\<not> loading (ui ?s) \<longrightarrow>
      loading (ui (chat_step ?s ev)) = (ev = PressSend \<and> trim (input (ui ?s)) \<noteq> [])"
    using b by (cases ev) (auto simp: sendMessage_start_def Let_def)
  show ?thesis using a b' c d e by blast
qed

theorem chat_single_flight_witness:
  "loading (ui (chat_run [TypeInput ''hi'', PressSend])) \<and>
   inflight (chat_run [TypeInput ''hi'', PressSend]) = [[\<lparr>role = ''user'', content = ''hi''\<rparr>]] \<and>
   chat_step (chat_run [TypeInput ''hi'', PressSend]) PressSend =
     chat_run [TypeInput ''hi'', PressSend] \<and>
   \<not> loading (ui (chat_step (chat_run [TypeInput ''hi'', PressSend])
        (Settle (Inl \<lparr>err_detail = None, err_message = ''Network Error''\<rparr>))))"
proof -
  have l: "loading (ui (chat_run [TypeInput ''hi'', PressSend]))"
    by (simp add: chat_run_def chat_ui_init_def chat_init_def sendMessage_start_def trim_def
        isWhiteSpace_def Let_def)
  have i: "inflight (chat_run [TypeInput ''hi'', PressSend]) =
      [[\<lparr>role = ''user'', content = ''hi''\<rparr>]]"
    by (simp add: chat_run_def chat_ui_init_def chat_init_def sendMessage_start_def trim_def
        isWhiteSpace_def Let_def)
  show ?thesis
    using l i chat_single_flight [of "[TypeInput ''hi'', PressSend]"
        "Settle (Inl \<lparr>err_detail = None, err_message = ''Network Error''\<rparr>)"]
    by blast
qed

section \<open>Properties of the story editor\<close>

subsection \<open>The client id\<close>

lemma storedClientId_setItem: "storedClientId (setItem ls ''client_id'' v) = v"
  by (simp add: storedClientId_def getItem_def setItem_def AList.update_conv)

lemma clientIdEffect_stored:
  "storedClientId ls \<noteq> [] \<Longrightarrow> clientIdEffect env ls = (ls, storedClientId ls)"
  by (auto simp: clientIdEffect_def storedClientId_def split: option.splits)

lemma clientIdEffect_generate:
  "storedClientId ls = [] \<Longrightarrow>
   clientIdEffect env ls = (setItem ls ''client_id'' (generateClientId env), generateClientId env)"
  by (auto simp: clientIdEffect_def storedClientId_def split: option.splits)

lemma clientIdEffect_key:
  "clientIdEffect env ls = (ls', cid) \<Longrightarrow> storedClientId ls' = cid"
  by (cases "storedClientId ls = []")
     (auto simp: clientIdEffect_stored clientIdEffect_generate storedClientId_setItem)

lemma editor_inv_init: "editor_inv (editor_ui_init ls)"
  by (simp add: editor_inv_def editor_ui_init_def editor_init_def)

lemma requests_empty: "editor_inv s \<Longrightarrow> storedClientId (storage s) = [] \<Longrightarrow> requests s = []"
  by (auto simp: editor_inv_def)

lemma editor_inv_Mount: 
  assumes "editor_inv s" shows "editor_inv (editor_step s (Mount env))"
proof (cases "storedClientId (storage s) = []")
  case True
  then have r: "requests s = []" using assms by (rule requests_empty [rotated])
  show ?thesis
    using True r
    by (simp add: clientIdEffect_generate editor_inv_def initEffect_start_def editor_init_def
        storedClientId_setItem)
next
  case False
  then show ?thesis
    using assms
    by (auto simp add: clientIdEffect_stored editor_inv_def initEffect_start_def editor_init_def)
qed



lemma editor_inv_InitSettles:
  "editor_inv s \<Longrightarrow> editor_inv (editor_step s (InitSettles outcome))"
  by (cases outcome; simp add: editor_inv_def initEffect_finish_def; blast)

lemma editor_inv_Change: "editor_inv s \<Longrightarrow> editor_inv (editor_step s (Change key v))"
  by (simp add: editor_inv_def Let_def)

lemma editor_inv_ResChange: "editor_inv s \<Longrightarrow> editor_inv (editor_step s (ResChange v))"
  by (simp add: editor_inv_def)

lemma editor_inv_SaveSettles:
  "editor_inv s \<Longrightarrow> editor_inv (editor_step s (SaveSettles outcome now))"
  by (cases outcome; simp add: editor_inv_def save_finish_def; blast)

lemma editor_inv_TimerFires: "editor_inv s \<Longrightarrow> editor_inv (editor_step s TimerFires)"
proof (cases "timer s")
  case None
  assume "editor_inv s" then show ?thesis using None by simp
next
  case (Some p)
  assume inv: "editor_inv s"
  obtain cl nxt where p: "p = (cl, nxt)" by (cases p)
  show ?thesis
  proof (cases "story cl")
    case None
    then show ?thesis using inv Some p
      by (simp add: editor_inv_def save_start_def)
  next
    case (Some doc)
    then show ?thesis using inv \<open>timer s = Some p\<close> p
      by (simp add: editor_inv_def save_start_def; metis)
  qed
qed

lemma editor_inv_step: "editor_inv s \<Longrightarrow> editor_inv (editor_step s ev)"
  by (cases ev)
     (simp_all only: editor_inv_Mount editor_inv_InitSettles editor_inv_Change
        editor_inv_ResChange editor_inv_TimerFires editor_inv_SaveSettles)

lemma editor_inv_foldl: "editor_inv s \<Longrightarrow> editor_inv (foldl editor_step s evs)"
  by (induction evs arbitrary: s) (simp_all add: editor_inv_step)

lemma editor_inv_run: "editor_inv (editor_run ls evs)"
  unfolding editor_run_def by (rule editor_inv_foldl [OF editor_inv_init])

lemma storage_step:
  "storedClientId (storage s) \<noteq> [] \<Longrightarrow> storage (editor_step s ev) = storage s"
  by (cases ev) (auto simp: clientIdEffect_stored Let_def split: option.splits prod.splits)

lemma storage_foldl:
  "storedClientId (storage s) \<noteq> [] \<Longrightarrow> storage (foldl editor_step s evs) = storage s"
  by (induction evs arbitrary: s) (simp_all add: storage_step)

lemma editor_run_append:
  "editor_run ls (evs @ evs') = foldl editor_step (editor_run ls evs) evs'"
  by (simp add: editor_run_def)

text \<open>
  Claim C8, amended: the \<open>clientId\<close> the editor supplies is stable per browser
  identity.  Every request sent, init or save, over any number of page loads, carries the
  value stored under \<open>client_id\<close>, which is not empty; once a non-empty value is stored
  it is never generated again and the storage does not change.  When nothing is stored,
  the value generated is the result of \<open>crypto.randomUUID()\<close> if that function is
  available, hence a UUID, and otherwise the digits of \<open>Math.random().toString(36)\<close>
  after the leading \<open>0.\<close>
\<close>

theorem clientId_stable:
  "(\<forall>r \<in> set (requests (editor_run ls evs)).
      request_clientId r = storedClientId (storage (editor_run ls evs)) \<and>
      request_clientId r \<noteq> []) \<and>
   (storedClientId (storage (editor_run ls evs)) \<noteq> [] \<longrightarrow>
      storage (editor_run ls (evs @ evs')) = storage (editor_run ls evs)) \<and>
   (storedClientId ls \<noteq> [] \<longrightarrow> clientIdEffect env ls = (ls, storedClientId ls)) \<and>
   (\<forall>u. storedClientId ls = [] \<and> randomUUID env = Some u \<longrightarrow>
      snd (clientIdEffect env ls) = u \<and> storedClientId (fst (clientIdEffect env ls)) = u \<and>
      (isUUID u \<longrightarrow> isUUID (snd (clientIdEffect env ls)))) \<and>
   (storedClientId ls = [] \<and> randomUUID env = None \<longrightarrow>
      snd (clientIdEffect env ls) = drop 2 (mathRandom36 env) \<and>
      storedClientId (fst (clientIdEffect env ls)) = drop 2 (mathRandom36 env))"
proof -
  have a: "\<forall>r \<in> set (requests (editor_run ls evs)).
      request_clientId r = storedClientId (storage (editor_run ls evs)) \<and>
      request_clientId r \<noteq> []"
    using editor_inv_run [of ls evs] by (simp add: editor_inv_def; metis empty_iff empty_set)
  have b: "storedClientId (storage (editor_run ls evs)) \<noteq> [] \<longrightarrow>
      storage (editor_run ls (evs @ evs')) = storage (editor_run ls evs)"
    by (simp add: editor_run_append storage_foldl)
  have c: "storedClientId ls \<noteq> [] \<longrightarrow> clientIdEffect env ls = (ls, storedClientId ls)"
    by (simp add: clientIdEffect_stored)
  have d: "\<forall>u. storedClientId ls = [] \<and> randomUUID env = Some u \<longrightarrow>
      snd (clientIdEffect env ls) = u \<and> storedClientId (fst (clientIdEffect env ls)) = u \<and>
      (isUUID u \<longrightarrow> isUUID (snd (clientIdEffect env ls)))"
    by (simp add: clientIdEffect_generate storedClientId_setItem generateClientId_def)
  have e: "storedClientId ls = [] \<and> randomUUID env = None \<longrightarrow>
      snd (clientIdEffect env ls) = drop 2 (mathRandom36 env) \<and>
      storedClientId (fst (clientIdEffect env ls)) = drop 2 (mathRandom36 env)"
    by (simp add: clientIdEffect_generate storedClientId_setItem generateClientId_def)
  show ?thesis using a b c d e by blast
qed


text \<open>
  Claim C8, as stated, says that the \<open>clientId\<close> is a UUID.  Where
  \<open>crypto.randomUUID\<close> is not available the editor falls back to
  \<open>Math.random().toString(36).slice(2)\<close>, and the init and save requests carry that
  string, which is not a UUID.
\<close>

theorem clientId_not_uuid:
  "map request_clientId
     (requests (editor_run []
        [Mount \<lparr>randomUUID = None, mathRandom36 = ''0.4fzyo82mvyr''\<rparr>,
         InitSettles (Inr \<lparr>storyId = ''s1'', version = 2, data_sections = None,
                           data_resonanceScore = Some 7\<rparr>),
         Change ''turningPoints'' ''x'', TimerFires])) = [''4fzyo82mvyr'', ''4fzyo82mvyr''] \<and>
   \<not> isUUID ''4fzyo82mvyr''"
  by (simp add: editor_run_def editor_ui_init_def editor_init_def clientIdEffect_def getItem_def
      setItem_def generateClientId_def initEffect_start_def initEffect_finish_def save_start_def
      Let_def isUUID_def)

theorem clientId_stable_witness:
  "map request_clientId
     (requests (editor_run []
        [Mount \<lparr>randomUUID = Some ''123e4567-e89b-42d3-a456-426614174000'',
                mathRandom36 = ''0.4fzyo82mvyr''\<rparr>,
         InitSettles (Inr \<lparr>storyId = ''s1'', version = 2, data_sections = None,
                           data_resonanceScore = Some 7\<rparr>),
         Change ''turningPoints'' ''x'', TimerFires])) =
     [''123e4567-e89b-42d3-a456-426614174000'', ''123e4567-e89b-42d3-a456-426614174000''] \<and>
   storage (editor_run []
        ([Mount \<lparr>randomUUID = Some ''123e4567-e89b-42d3-a456-426614174000'',
                mathRandom36 = ''0.4fzyo82mvyr''\<rparr>,
         InitSettles (Inr \<lparr>storyId = ''s1'', version = 2, data_sections = None,
                           data_resonanceScore = Some 7\<rparr>),
         Change ''turningPoints'' ''x'', TimerFires] @
         [Mount \<lparr>randomUUID = Some ''00000000-0000-4000-8000-000000000000'',
                 mathRandom36 = ''0.i''\<rparr>])) =
     [(''client_id'', ''123e4567-e89b-42d3-a456-426614174000'')] \<and>
   isUUID (snd (clientIdEffect \<lparr>randomUUID = Some ''123e4567-e89b-42d3-a456-426614174000'',
                mathRandom36 = ''0.4fzyo82mvyr''\<rparr> []))"
proof -
  let ?env = "\<lparr>randomUUID = Some ''123e4567-e89b-42d3-a456-426614174000'',
                mathRandom36 = ''0.4fzyo82mvyr''\<rparr>"
  let ?evs = "[Mount ?env,
         InitSettles (Inr \<lparr>storyId = ''s1'', version = 2, data_sections = None,
                           data_resonanceScore = Some 7\<rparr>),
         Change ''turningPoints'' ''x'', TimerFires]"
  let ?evs' = "[Mount \<lparr>randomUUID = Some ''00000000-0000-4000-8000-000000000000'',
                 mathRandom36 = ''0.i''\<rparr>]"
  have run: "editor_run [] ?evs =
     \<lparr>storage = [(''client_id'', ''123e4567-e89b-42d3-a456-426614174000'')],
      requests =
        [InitReq \<lparr>init_clientId = ''123e4567-e89b-42d3-a456-426614174000''\<rparr>,
         SaveReq \<lparr>save_storyId = ''s1'',
                  save_clientId = ''123e4567-e89b-42d3-a456-426614174000'',
                  save_sections = AList.update ''turningPoints'' ''x'' defaultSections,
                  save_resonanceScore = 7\<rparr>],
      ed = \<lparr>clientId = ''123e4567-e89b-42d3-a456-426614174000'',
            story = Some \<lparr>storyId = ''s1'', version = 2, data_sections = None,
                           data_resonanceScore = Some 7\<rparr>,
            sections = AList.update ''turningPoints'' ''x'' defaultSections,
            resonance = 7, saving = True, lastSaved = None, editor_error = None\<rparr>,
      init_inflight = False, timer = None, saves_inflight = 1\<rparr>"
    by (simp add: editor_run_def editor_ui_init_def editor_init_def clientIdEffect_def
        getItem_def setItem_def generateClientId_def initEffect_start_def initEffect_finish_def
        save_start_def Let_def)
  have key: "storedClientId (storage (editor_run [] ?evs)) \<noteq> []"
    by (simp add: run storedClientId_def getItem_def)
  have u: "isUUID ''123e4567-e89b-42d3-a456-426614174000''"
    by (simp add: isUUID_def isHexDigit_def upt_rec)
  have e: "storedClientId [] = []" by (simp add: storedClientId_def getItem_def)
  show ?thesis
    using clientId_stable [of "[]" ?evs ?evs' ?env] key u e
    by (simp add: run)
qed

subsection \<open>A failed save\<close>

lemma save_possible_step:
  "save_possible (editor_step s ev) \<Longrightarrow> \<not> save_possible s \<Longrightarrow> \<exists>d. ev = InitSettles (Inr d)"
proof (cases ev)
  case (Mount env)
  assume "save_possible (editor_step s ev)" "\<not> save_possible s"
  then show ?thesis using Mount
    by (simp add: save_possible_def initEffect_start_def editor_init_def split: prod.splits if_splits)
next
  case (InitSettles outcome)
  assume "save_possible (editor_step s ev)" "\<not> save_possible s"
  then show ?thesis using InitSettles
    by (cases outcome) (simp_all add: save_possible_def initEffect_finish_def split: if_splits)
next
  case (Change key v)
  assume "save_possible (editor_step s ev)" "\<not> save_possible s"
  then show ?thesis using Change by (simp add: save_possible_def Let_def)
next
  case (ResChange v)
  assume "save_possible (editor_step s ev)" "\<not> save_possible s"
  then show ?thesis using ResChange by (simp add: save_possible_def)
next
  case TimerFires
  assume "save_possible (editor_step s ev)" "\<not> save_possible s"
  then show ?thesis using TimerFires
    by (simp add: save_possible_def save_start_def split: option.splits prod.splits)
next
  case (SaveSettles outcome now)
  assume "save_possible (editor_step s ev)" "\<not> save_possible s"
  then show ?thesis using SaveSettles
    by (simp add: save_possible_def)
qed

lemma save_needs_init:
  "save_possible (editor_run ls evs) \<Longrightarrow> \<exists>d. InitSettles (Inr d) \<in> set evs"
proof (induction evs rule: rev_induct)
  case Nil
  then show ?case
    by (simp add: save_possible_def editor_run_def editor_ui_init_def editor_init_def)
next
  case (snoc ev evs)
  have step: "editor_run ls (evs @ [ev]) = editor_step (editor_run ls evs) ev"
    by (simp add: editor_run_def)
  show ?case
  proof (cases "save_possible (editor_run ls evs)")
    case True
    then show ?thesis using snoc.IH by auto
  next
    case False
    then have "\<exists>d. ev = InitSettles (Inr d)"
      using snoc.prems save_possible_step [of "editor_run ls evs" ev] by (simp add: step)
    then show ?thesis by auto
  qed
qed

lemma save_request_possible:
  "SaveReq r \<in> set (requests s) \<Longrightarrow> save_possible s"
  by (force simp: save_possible_def list_ex_iff)

lemma document_state_changes:
  "(lastSaved (ed (editor_step s ev)) \<noteq> lastSaved (ed s) \<longrightarrow>
      (\<exists>data now. ev = SaveSettles (Inr data) now) \<or> (\<exists>env. ev = Mount env)) \<and>
   (story (ed (editor_step s ev)) \<noteq> story (ed s) \<longrightarrow>
      (\<exists>data now. ev = SaveSettles (Inr data) now) \<or> (\<exists>data. ev = InitSettles (Inr data)) \<or>
      (\<exists>env. ev = Mount env))"
proof (cases ev)
  case (Mount env)
  then show ?thesis by simp
next
  case (InitSettles outcome)
  then show ?thesis by (cases outcome) (simp_all add: initEffect_finish_def)
next
  case (Change key v)
  then show ?thesis by (simp add: Let_def)
next
  case (ResChange v)
  then show ?thesis by simp
next
  case TimerFires
  then show ?thesis by (simp add: save_start_def split: option.splits prod.splits)
next
  case (SaveSettles outcome now)
  then show ?thesis by (cases outcome) (simp_all add: save_finish_def)
qed

text \<open>
  Claim C10: when the save request fails, \<open>save\<close> leaves the story object, the
  version badge, \<open>lastSaved\<close>, the sections, the resonance and the client id as they
  were, stores the error detail and clears \<open>saving\<close> (as the \<open>finally\<close> block does
  for both outcomes); a successful response replaces the story and sets \<open>lastSaved\<close>.
  Within a page load \<open>lastSaved\<close> changes only on a successful save response, and
  \<open>story\<close> only on a successful save or init response.  \<open>save\<close> issues no request
  while the story it sees is null, and a save request is never sent before a successful
  init response.
\<close>

theorem failed_save_keeps_document:
  "story (save_finish (Inl e) now st) = story st \<and>
   versionBadge (save_finish (Inl e) now st) = versionBadge st \<and>
   lastSaved (save_finish (Inl e) now st) = lastSaved st \<and>
   sections (save_finish (Inl e) now st) = sections st \<and>
   resonance (save_finish (Inl e) now st) = resonance st \<and>
   clientId (save_finish (Inl e) now st) = clientId st \<and>
   editor_error (save_finish (Inl e) now st) = Some (errorDetail e) \<and>
   saving (save_finish (Inl e) now st) = False \<and>
   story (save_finish (Inr data) now st) = Some data \<and>
   lastSaved (save_finish (Inr data) now st) = Some now \<and>
   story (ed (editor_step s (SaveSettles (Inl e) now))) = story (ed s) \<and>
   lastSaved (ed (editor_step s (SaveSettles (Inl e) now))) = lastSaved (ed s) \<and>
   (lastSaved (ed (editor_step s ev)) \<noteq> lastSaved (ed s) \<longrightarrow>
      (\<exists>data now. ev = SaveSettles (Inr data) now) \<or> (\<exists>env. ev = Mount env)) \<and>
   (story (ed (editor_step s ev)) \<noteq> story (ed s) \<longrightarrow>
      (\<exists>data now. ev = SaveSettles (Inr data) now) \<or> (\<exists>data. ev = InitSettles (Inr data)) \<or>
      (\<exists>env. ev = Mount env)) \<and>
   (story cl = None \<longrightarrow> save_start cl nxt st = (st, None)) \<and>
   ((\<exists>r. SaveReq r \<in> set (requests (editor_run ls evs))) \<longrightarrow>
      (\<exists>d. InitSettles (Inr d) \<in> set evs))"
proof -
  have a: "(\<exists>r. SaveReq r \<in> set (requests (editor_run ls evs))) \<longrightarrow>
      (\<exists>d. InitSettles (Inr d) \<in> set evs)"
    using save_needs_init [of ls evs] save_request_possible [of _ "editor_run ls evs"] by blast
  have b: "story (ed (editor_step s (SaveSettles (Inl e) now))) = story (ed s) \<and>
      lastSaved (ed (editor_step s (SaveSettles (Inl e) now))) = lastSaved (ed s)"
    by (simp add: save_finish_def)
  have c: "story cl = None \<longrightarrow> save_start cl nxt st = (st, None)"
    by (simp add: save_start_def)
  have d: "story (save_finish (Inl e) now st) = story st \<and>
      versionBadge (save_finish (Inl e) now st) = versionBadge st \<and>
      lastSaved (save_finish (Inl e) now st) = lastSaved st \<and>
      sections (save_finish (Inl e) now st) = sections st \<and>
      resonance (save_finish (Inl e) now st) = resonance st \<and>
      clientId (save_finish (Inl e) now st) = clientId st \<and>
      editor_error (save_finish (Inl e) now st) = Some (errorDetail e) \<and>
      saving (save_finish (Inl e) now st) = False \<and>
      story (save_finish (Inr data) now st) = Some data \<and>
      lastSaved (save_finish (Inr data) now st) = Some now"
    by (simp add: save_finish_def versionBadge_def)
  show ?thesis
    using a b c d document_state_changes [of s ev] by blast
qed

theorem failed_save_keeps_document_witness:
  "story (ed (editor_step
      (editor_run []
         [Mount \<lparr>randomUUID = Some ''123e4567-e89b-42d3-a456-426614174000'',
                 mathRandom36 = ''0.4fzyo82mvyr''\<rparr>,
          InitSettles (Inr \<lparr>storyId = ''s1'', version = 2, data_sections = None,
                            data_resonanceScore = Some 7\<rparr>),
          Change ''turningPoints'' ''x'', TimerFires])
      (SaveSettles (Inl \<lparr>err_detail = Some (JStr ''Story not found''),
                         err_message = ''Request failed with status code 404''\<rparr>) 5))) =
     Some \<lparr>storyId = ''s1'', version = 2, data_sections = None, data_resonanceScore = Some 7\<rparr> \<and>
   save_start editor_init \<lparr>next_sections = defaultSections, next_resonance = 5\<rparr> editor_init =
     (editor_init, None) \<and>
   requests (editor_run [] [Change ''futureVision'' ''x'', TimerFires]) = []"
proof -
  let ?evs = "[Mount \<lparr>randomUUID = Some ''123e4567-e89b-42d3-a456-426614174000'',
                 mathRandom36 = ''0.4fzyo82mvyr''\<rparr>,
          InitSettles (Inr \<lparr>storyId = ''s1'', version = 2, data_sections = None,
                            data_resonanceScore = Some 7\<rparr>),
          Change ''turningPoints'' ''x'', TimerFires]"
  have st: "story (ed (editor_run [] ?evs)) =
      Some \<lparr>storyId = ''s1'', version = 2, data_sections = None, data_resonanceScore = Some 7\<rparr>"
    by (simp add: editor_run_def editor_ui_init_def editor_init_def clientIdEffect_def
        getItem_def setItem_def generateClientId_def initEffect_start_def initEffect_finish_def
        save_start_def Let_def)
  have nil: "requests (editor_run [] [Change ''futureVision'' ''x'', TimerFires]) = []"
    by (simp add: editor_run_def editor_ui_init_def editor_init_def save_start_def Let_def)
  have none: "story editor_init = None" by (simp add: editor_init_def)
  show ?thesis
    using st nil none
      failed_save_keeps_document
        [of "\<lparr>err_detail = Some (JStr ''Story not found''),
              err_message = ''Request failed with status code 404''\<rparr>" 5 editor_init _
            "editor_run [] ?evs" TimerFires editor_init
            "\<lparr>next_sections = defaultSections, next_resonance = 5\<rparr>" "[]"
            "[Change ''futureVision'' ''x'', TimerFires]"]
    by simp
qed

section \<open>Properties of the provider registry\<close>

lemma find_priority:
  "find P priorityOrder =
     (if P openai then Some openai else if P anthropic then Some anthropic
      else if P gemini then Some gemini else None)"
  by (simp add: priorityOrder_def)

lemma scan_none: "(\<forall>q. \<not> credentialPresent cfg q) \<Longrightarrow>
   scanCredentials cfg = Inl (ConfigurationError (case selected cfg of Some p \<Rightarrow> p | None \<Rightarrow> openai))"
  by (simp add: scanCredentials_def find_priority)

text \<open>
  Claim C4: \<open>resolve\<close> returns the explicitly configured provider when its credential
  is present.  Otherwise it returns the first provider in the order openai, anthropic,
  gemini whose credential is present.  When no credential is present it fails with the
  configuration error that names the configured provider, or openai when none is
  configured; when some credential is present it succeeds with a provider whose
  credential is present.  With only the Anthropic key set and no provider configured it
  returns anthropic.
\<close>

theorem resolve_selection:
  "(\<forall>p. selected cfg = Some p \<and> credentialPresent cfg p \<longrightarrow> resolve cfg = Inr p) \<and>
   (\<not> (\<exists>p. selected cfg = Some p \<and> credentialPresent cfg p) \<longrightarrow>
      (\<forall>q. resolve cfg = Inr q \<longleftrightarrow>
         (\<exists>i < length priorityOrder. priorityOrder ! i = q \<and> credentialPresent cfg q \<and>
            (\<forall>j < i. \<not> credentialPresent cfg (priorityOrder ! j))))) \<and>
   ((\<forall>q. \<not> credentialPresent cfg q) \<longrightarrow>
      resolve cfg =
        Inl (ConfigurationError (case selected cfg of Some p \<Rightarrow> p | None \<Rightarrow> openai))) \<and>
   ((\<exists>q. credentialPresent cfg q) \<longrightarrow> (\<exists>p. resolve cfg = Inr p \<and> credentialPresent cfg p)) \<and>
   (selected cfg = None \<and> openaiKey cfg = None \<and> anthropicKey cfg \<noteq> None \<longrightarrow>
      resolve cfg = Inr anthropic)"
proof -
  have a: "\<forall>p. selected cfg = Some p \<and> credentialPresent cfg p \<longrightarrow> resolve cfg = Inr p"
    by (simp add: resolve_def)
  have scan: "\<not> (\<exists>p. selected cfg = Some p \<and> credentialPresent cfg p) \<Longrightarrow>
      resolve cfg = scanCredentials cfg"
    by (auto simp: resolve_def split: option.splits)
  have idx: "\<And>P q. (\<exists>i < length priorityOrder. priorityOrder ! i = q \<and> P q \<and>
            (\<forall>j < i. \<not> P (priorityOrder ! j))) =
       (find P priorityOrder = Some q)"
    by (simp add: find_Some_iff)  blast
  have b: "\<not> (\<exists>p. selected cfg = Some p \<and> credentialPresent cfg p) \<longrightarrow>
      (\<forall>q. resolve cfg = Inr q \<longleftrightarrow>
         (\<exists>i < length priorityOrder. priorityOrder ! i = q \<and> credentialPresent cfg q \<and>
            (\<forall>j < i. \<not> credentialPresent cfg (priorityOrder ! j))))"
    by (auto simp: scan idx scanCredentials_def split: option.splits)
  have c: "(\<forall>q. \<not> credentialPresent cfg q) \<longrightarrow>
      resolve cfg =
        Inl (ConfigurationError (case selected cfg of Some p \<Rightarrow> p | None \<Rightarrow> openai))"
    by (auto simp: resolve_def scan_none split: option.splits)
  have d: "(\<exists>q. credentialPresent cfg q) \<longrightarrow> (\<exists>p. resolve cfg = Inr p \<and> credentialPresent cfg p)"
  proof
    assume "\<exists>q. credentialPresent cfg q"
    then obtain q where q: "credentialPresent cfg q" by blast
    then have "credentialPresent cfg openai \<or> credentialPresent cfg anthropic \<or> credentialPresent cfg gemini"
      by (cases q) auto
    then show "\<exists>p. resolve cfg = Inr p \<and> credentialPresent cfg p"
      by (auto simp: resolve_def scanCredentials_def find_priority split: option.splits)
  qed
  have e: "selected cfg = None \<and> openaiKey cfg = None \<and> anthropicKey cfg \<noteq> None \<longrightarrow>
      resolve cfg = Inr anthropic"
    by (simp add: resolve_def scanCredentials_def find_priority credentialPresent_def)
  show ?thesis using a b c d e by blast
qed

theorem resolve_selection_witness:
  "resolve \<lparr>selected = None, openaiKey = None, anthropicKey = Some ''sk-ant'',
            googleKey = None\<rparr> = Inr anthropic \<and>
   resolve \<lparr>selected = Some gemini, openaiKey = None, anthropicKey = None,
            googleKey = None\<rparr> = Inl (ConfigurationError gemini) \<and>
   resolve \<lparr>selected = None, openaiKey = None, anthropicKey = None,
            googleKey = None\<rparr> = Inl (ConfigurationError openai)"
proof -
  have n1: "\<forall>q. \<not> credentialPresent \<lparr>selected = Some gemini, openaiKey = None,
      anthropicKey = None, googleKey = None\<rparr> q"
  proof
    fix q show "\<not> credentialPresent \<lparr>selected = Some gemini, openaiKey = None,
      anthropicKey = None, googleKey = None\<rparr> q"
      by (cases q) (simp_all add: credentialPresent_def)
  qed
  have n2: "\<forall>q. \<not> credentialPresent \<lparr>selected = None, openaiKey = None,
      anthropicKey = None, googleKey = None\<rparr> q"
  proof
    fix q show "\<not> credentialPresent \<lparr>selected = None, openaiKey = None,
      anthropicKey = None, googleKey = None\<rparr> q"
      by (cases q) (simp_all add: credentialPresent_def)
  qed
  show ?thesis
    using n1 n2
      resolve_selection [of "\<lparr>selected = None, openaiKey = None, anthropicKey = Some ''sk-ant'',
            googleKey = None\<rparr>"]
      resolve_selection [of "\<lparr>selected = Some gemini, openaiKey = None, anthropicKey = None,
            googleKey = None\<rparr>"]
      resolve_selection [of "\<lparr>selected = None, openaiKey = None, anthropicKey = None,
            googleKey = None\<rparr>"]
    by simp
qed

section \<open>Properties of the story store and the story service\<close>

subsection \<open>Lookup and creation\<close>

lemma find_append_none: "find P xs = None \<Longrightarrow> find P (xs @ ys) = find P ys"
  by (induction xs) (auto split: if_splits)

lemma find_sat: "find P xs = Some x \<Longrightarrow> P x"
  by (induction xs) (auto split: if_splits)

lemma filter_find_none: "find P xs = None \<Longrightarrow> filter P xs = []"
  by (induction xs) (auto split: if_splits)

lemma initOrFetch_create:
  "find (\<lambda>d. doc_clientId d = cid) store = None \<Longrightarrow>
   initOrFetch store cid newId now =
     (store @ [\<lparr>doc_storyId = newId, doc_clientId = cid, doc_version = 1,
                 doc_sections = [], doc_resonanceScore = defaultResonance,
                 doc_createdAt = now, doc_updatedAt = now, doc_history = []\<rparr>],
      \<lparr>doc_storyId = newId, doc_clientId = cid, doc_version = 1,
                 doc_sections = [], doc_resonanceScore = defaultResonance,
                 doc_createdAt = now, doc_updatedAt = now, doc_history = []\<rparr>)"
  by (simp add: initOrFetch_def Let_def)

lemma initOrFetch_existing:
  "find (\<lambda>d. doc_clientId d = cid) store = Some d \<Longrightarrow> initOrFetch store cid newId now = (store, d)"
  by (simp add: initOrFetch_def)

lemma initOrFetch_found:
  "find (\<lambda>d. doc_clientId d = cid) (fst (initOrFetch store cid newId now)) =
     Some (snd (initOrFetch store cid newId now))"
proof (cases "find (\<lambda>d. doc_clientId d = cid) store")
  case None
  then show ?thesis by (simp add: initOrFetch_create find_append_none)
next
  case (Some d)
  then show ?thesis by (simp add: initOrFetch_existing)
qed

text \<open>
  Claim C2: for a client id with no document, \<open>initOrFetch\<close> adds exactly one
  document to the store, the one it returns, with the given client id, version 1, empty
  sections, resonance score 7.0 and empty history.  For a client id that has a document,
  whatever its version, sections, score and history, \<open>initOrFetch\<close> leaves the store as
  it is and returns that document as it is stored.  Hence a second \<open>initOrFetch\<close> with
  the same client id leaves the store as it is and returns the same document, with the
  same story id and version, and the number of documents of the client does not change.
\<close>

theorem initOrFetch_idempotent:
  "(find (\<lambda>d. doc_clientId d = cid) store = None \<longrightarrow>
      fst (initOrFetch store cid newId now) = store @ [snd (initOrFetch store cid newId now)] \<and>
      length (filter (\<lambda>d. doc_clientId d = cid) (fst (initOrFetch store cid newId now))) = 1 \<and>
      doc_clientId (snd (initOrFetch store cid newId now)) = cid \<and>
      doc_storyId (snd (initOrFetch store cid newId now)) = newId \<and>
      doc_version (snd (initOrFetch store cid newId now)) = 1 \<and>
      doc_sections (snd (initOrFetch store cid newId now)) = [] \<and>
      (\<forall>k. sectionText (doc_sections (snd (initOrFetch store cid newId now))) k = []) \<and>
      doc_resonanceScore (snd (initOrFetch store cid newId now)) = 7 \<and>
      doc_history (snd (initOrFetch store cid newId now)) = []) \<and>
   (\<forall>d. find (\<lambda>x. doc_clientId x = cid) store = Some d \<longrightarrow>
      initOrFetch store cid newId now = (store, d)) \<and>
   initOrFetch (fst (initOrFetch store cid newId now)) cid newId' now' =
     (fst (initOrFetch store cid newId now), snd (initOrFetch store cid newId now)) \<and>
   doc_storyId (snd (initOrFetch (fst (initOrFetch store cid newId now)) cid newId' now')) =
     doc_storyId (snd (initOrFetch store cid newId now)) \<and>
   doc_version (snd (initOrFetch (fst (initOrFetch store cid newId now)) cid newId' now')) =
     doc_version (snd (initOrFetch store cid newId now)) \<and>
   length (filter (\<lambda>d. doc_clientId d = cid)
       (fst (initOrFetch (fst (initOrFetch store cid newId now)) cid newId' now'))) =
     length (filter (\<lambda>d. doc_clientId d = cid) (fst (initOrFetch store cid newId now)))"
proof -
  have existing: "\<forall>d. find (\<lambda>x. doc_clientId x = cid) store = Some d \<longrightarrow>
      initOrFetch store cid newId now = (store, d)"
    by (simp add: initOrFetch_existing)
  have again: "initOrFetch (fst (initOrFetch store cid newId now)) cid newId' now' =
     (fst (initOrFetch store cid newId now), snd (initOrFetch store cid newId now))"
    using initOrFetch_found [of cid store newId now] by (rule initOrFetch_existing)
  have fresh: "find (\<lambda>d. doc_clientId d = cid) store = None \<longrightarrow>
      fst (initOrFetch store cid newId now) = store @ [snd (initOrFetch store cid newId now)] \<and>
      length (filter (\<lambda>d. doc_clientId d = cid) (fst (initOrFetch store cid newId now))) = 1 \<and>
      doc_clientId (snd (initOrFetch store cid newId now)) = cid \<and>
      doc_storyId (snd (initOrFetch store cid newId now)) = newId \<and>
      doc_version (snd (initOrFetch store cid newId now)) = 1 \<and>
      doc_sections (snd (initOrFetch store cid newId now)) = [] \<and>
      (\<forall>k. sectionText (doc_sections (snd (initOrFetch store cid newId now))) k = []) \<and>
      doc_resonanceScore (snd (initOrFetch store cid newId now)) = 7 \<and>
      doc_history (snd (initOrFetch store cid newId now)) = []"
    by (simp add: initOrFetch_create filter_find_none sectionText_def defaultResonance_def)
  have same_id:
    "doc_storyId (snd (initOrFetch (fst (initOrFetch store cid newId now)) cid newId' now')) =
     doc_storyId (snd (initOrFetch store cid newId now))"
    by (simp add: again)
  have same_version:
    "doc_version (snd (initOrFetch (fst (initOrFetch store cid newId now)) cid newId' now')) =
     doc_version (snd (initOrFetch store cid newId now))"
    by (simp add: again)
  have same_count:
    "length (filter (\<lambda>d. doc_clientId d = cid)
       (fst (initOrFetch (fst (initOrFetch store cid newId now)) cid newId' now'))) =
     length (filter (\<lambda>d. doc_clientId d = cid) (fst (initOrFetch store cid newId now)))"
    by (simp add: again)
  show ?thesis using existing again fresh same_id same_version same_count by blast
qed

theorem initOrFetch_idempotent_witness:
  "initOrFetch [] ''client-a'' ''story-1'' 100 =
     ([\<lparr>doc_storyId = ''story-1'', doc_clientId = ''client-a'', doc_version = 1,
        doc_sections = [], doc_resonanceScore = 7, doc_createdAt = 100, doc_updatedAt = 100,
        doc_history = []\<rparr>],
      \<lparr>doc_storyId = ''story-1'', doc_clientId = ''client-a'', doc_version = 1,
        doc_sections = [], doc_resonanceScore = 7, doc_createdAt = 100, doc_updatedAt = 100,
        doc_history = []\<rparr>) \<and>
   initOrFetch (fst (initOrFetch [] ''client-a'' ''story-1'' 100)) ''client-a'' ''story-2'' 200 =
     initOrFetch [] ''client-a'' ''story-1'' 100 \<and>
   initOrFetch
     [\<lparr>doc_storyId = ''story-0'', doc_clientId = ''client-b'', doc_version = 4,
        doc_sections = [], doc_resonanceScore = 3, doc_createdAt = 50, doc_updatedAt = 60,
        doc_history = []\<rparr>,
      \<lparr>doc_storyId = ''story-1'', doc_clientId = ''client-a'', doc_version = 2,
        doc_sections = [(''futureVision'', ''sail'')], doc_resonanceScore = 9,
        doc_createdAt = 100, doc_updatedAt = 150,
        doc_history = [\<lparr>snap_version = 1, snap_resonanceScore = 7, snap_sections = [],
                         snap_timestamp = 150\<rparr>]\<rparr>] ''client-a'' ''story-9'' 300 =
     ([\<lparr>doc_storyId = ''story-0'', doc_clientId = ''client-b'', doc_version = 4,
        doc_sections = [], doc_resonanceScore = 3, doc_createdAt = 50, doc_updatedAt = 60,
        doc_history = []\<rparr>,
       \<lparr>doc_storyId = ''story-1'', doc_clientId = ''client-a'', doc_version = 2,
        doc_sections = [(''futureVision'', ''sail'')], doc_resonanceScore = 9,
        doc_createdAt = 100, doc_updatedAt = 150,
        doc_history = [\<lparr>snap_version = 1, snap_resonanceScore = 7, snap_sections = [],
                         snap_timestamp = 150\<rparr>]\<rparr>],
      \<lparr>doc_storyId = ''story-1'', doc_clientId = ''client-a'', doc_version = 2,
        doc_sections = [(''futureVision'', ''sail'')], doc_resonanceScore = 9,
        doc_createdAt = 100, doc_updatedAt = 150,
        doc_history = [\<lparr>snap_version = 1, snap_resonanceScore = 7, snap_sections = [],
                         snap_timestamp = 150\<rparr>]\<rparr>)"
proof -
  let ?d2 = "\<lparr>doc_storyId = ''story-1'', doc_clientId = ''client-a'', doc_version = 2,
        doc_sections = [(''futureVision'', ''sail'')], doc_resonanceScore = 9,
        doc_createdAt = 100, doc_updatedAt = 150,
        doc_history = [\<lparr>snap_version = 1, snap_resonanceScore = 7, snap_sections = [],
                         snap_timestamp = 150\<rparr>]\<rparr>"
  let ?db = "\<lparr>doc_storyId = ''story-0'', doc_clientId = ''client-b'', doc_version = 4,
        doc_sections = [], doc_resonanceScore = 3, doc_createdAt = 50, doc_updatedAt = 60,
        doc_history = []\<rparr>"
  have n: "find (\<lambda>d. doc_clientId d = ''client-a'') [] = None" by simp
  have v: "initOrFetch [] ''client-a'' ''story-1'' 100 =
     ([\<lparr>doc_storyId = ''story-1'', doc_clientId = ''client-a'', doc_version = 1,
        doc_sections = [], doc_resonanceScore = 7, doc_createdAt = 100, doc_updatedAt = 100,
        doc_history = []\<rparr>],
      \<lparr>doc_storyId = ''story-1'', doc_clientId = ''client-a'', doc_version = 1,
        doc_sections = [], doc_resonanceScore = 7, doc_createdAt = 100, doc_updatedAt = 100,
        doc_history = []\<rparr>)"
    by (simp add: initOrFetch_def Let_def defaultResonance_def)
  have f: "find (\<lambda>x. doc_clientId x = ''client-a'') [?db, ?d2] = Some ?d2" by simp
  have stored: "initOrFetch [?db, ?d2] ''client-a'' ''story-9'' 300 = ([?db, ?d2], ?d2)"
    using f initOrFetch_idempotent [of "''client-a''" "[?db, ?d2]" "''story-9''" 300] by blast
  have "initOrFetch (fst (initOrFetch [] ''client-a'' ''story-1'' 100)) ''client-a''
      ''story-2'' 200 =
      (fst (initOrFetch [] ''client-a'' ''story-1'' 100),
       snd (initOrFetch [] ''client-a'' ''story-1'' 100))"
    using initOrFetch_idempotent [of "''client-a''" "[]" "''story-1''" 100 "''story-2''" 200]
    by blast
  then have again: "initOrFetch (fst (initOrFetch [] ''client-a'' ''story-1'' 100)) ''client-a''
      ''story-2'' 200 = initOrFetch [] ''client-a'' ''story-1'' 100"
    by (simp only: prod.collapse)
  show ?thesis using v stored again by blast
qed

subsection \<open>Saving\<close>

lemma find_putDocument:
  "find (\<lambda>x. doc_storyId x = sid) store = Some d \<Longrightarrow> doc_storyId d' = sid \<Longrightarrow>
   find (\<lambda>x. doc_storyId x = sid) (putDocument d' store) = Some d'"
  by (induction store) (auto split: if_splits)

lemma updatedDocument_ids:
  "doc_storyId (updatedDocument d S R now) = doc_storyId d"
  "doc_clientId (updatedDocument d S R now) = doc_clientId d"
  by (simp_all add: updatedDocument_def)

lemma storyStore_save_ok:
  "find (\<lambda>x. doc_storyId x = sid) store = Some d \<Longrightarrow> doc_clientId d = cid \<Longrightarrow>
   storyStore_save store sid cid S R now =
     Inr (putDocument (updatedDocument d S R now) store, updatedDocument d S R now)"
  by (simp add: storyStore_save_def)

lemma storyStore_save_Inr:
  "storyStore_save store sid cid S R now = Inr (store', d') \<Longrightarrow>
   \<exists>d. find (\<lambda>x. doc_storyId x = sid) store = Some d \<and> doc_clientId d = cid \<and>
       d' = updatedDocument d S R now \<and> store' = putDocument d' store"
  by (auto simp: storyStore_save_def split: option.splits if_splits)

lemma storyStore_save_fetch:
  assumes "storyStore_save store sid cid S R now = Inr (store', d')"
  shows "fetchById store' sid = Inr d' \<and> doc_sections d' = S \<and> doc_resonanceScore d' = R"
proof -
  from assms obtain d where f: "find (\<lambda>x. doc_storyId x = sid) store = Some d"
    and d': "d' = updatedDocument d S R now" and s': "store' = putDocument d' store"
    using storyStore_save_Inr by blast
  have "doc_storyId d = sid" using find_sat [OF f] .
  then have "doc_storyId d' = sid" by (simp add: d' updatedDocument_ids)
  then have "find (\<lambda>x. doc_storyId x = sid) store' = Some d'"
    unfolding s' using f by (simp add: find_putDocument)
  then show ?thesis by (simp add: fetchById_def d' updatedDocument_def)
qed

text \<open>
  Claim C3: if a save through the story service succeeds, then the score is in [0,10],
  every section key is one of the five fixed keys, and \<open>fetchById\<close> on the resulting
  store returns the saved document, whose sections are exactly \<open>S\<close> and whose score is
  exactly \<open>R\<close>; nothing of the sections stored before remains.  The same holds for a
  successful \<open>StoryStore.save\<close>.
\<close>

theorem save_fetch_roundtrip:
  "(storyService_save store sid cid S R now = Inr (store', d') \<longrightarrow>
      0 \<le> R \<and> R \<le> 10 \<and> fst ` set S \<subseteq> set sectionKeys \<and>
      fetchById store' sid = Inr d' \<and> doc_sections d' = S \<and> doc_resonanceScore d' = R \<and>
      (\<forall>k. sectionText (doc_sections d') k = sectionText S k)) \<and>
   (storyStore_save store sid cid S R now = Inr (store', d') \<longrightarrow>
      fetchById store' sid = Inr d' \<and> doc_sections d' = S \<and> doc_resonanceScore d' = R)"
proof -
  have b: "storyStore_save store sid cid S R now = Inr (store', d') \<longrightarrow>
      fetchById store' sid = Inr d' \<and> doc_sections d' = S \<and> doc_resonanceScore d' = R"
    using storyStore_save_fetch by blast
  have a: "storyService_save store sid cid S R now = Inr (store', d') \<longrightarrow>
      validSave S R \<and> storyStore_save store sid cid S R now = Inr (store', d')"
    by (auto simp: storyService_save_def split: if_splits)
  have v: "validSave S R \<longrightarrow> 0 \<le> R \<and> R \<le> 10 \<and> fst ` set S \<subseteq> set sectionKeys"
    by (auto simp: validSave_def list_all_iff)
  show ?thesis using a b v by auto
qed

theorem save_fetch_roundtrip_witness:
  "storyService_save
     [\<lparr>doc_storyId = ''story-1'', doc_clientId = ''client-a'', doc_version = 1,
       doc_sections = [(''turningPoints'', ''old'')], doc_resonanceScore = 7,
       doc_createdAt = 100, doc_updatedAt = 100, doc_history = []\<rparr>]
     ''story-1'' ''client-a'' [(''futureVision'', ''new'')] 10 200 =
   Inr ([\<lparr>doc_storyId = ''story-1'', doc_clientId = ''client-a'', doc_version = 2,
          doc_sections = [(''futureVision'', ''new'')], doc_resonanceScore = 10,
          doc_createdAt = 100, doc_updatedAt = 200,
          doc_history = [\<lparr>snap_version = 1, snap_resonanceScore = 7,
                           snap_sections = [(''turningPoints'', ''old'')],
                           snap_timestamp = 200\<rparr>]\<rparr>],
        \<lparr>doc_storyId = ''story-1'', doc_clientId = ''client-a'', doc_version = 2,
          doc_sections = [(''futureVision'', ''new'')], doc_resonanceScore = 10,
          doc_createdAt = 100, doc_updatedAt = 200,
          doc_history = [\<lparr>snap_version = 1, snap_resonanceScore = 7,
                           snap_sections = [(''turningPoints'', ''old'')],
                           snap_timestamp = 200\<rparr>]\<rparr>) \<and>
   fetchById
     [\<lparr>doc_storyId = ''story-1'', doc_clientId = ''client-a'', doc_version = 2,
          doc_sections = [(''futureVision'', ''new'')], doc_resonanceScore = 10,
          doc_createdAt = 100, doc_updatedAt = 200,
          doc_history = [\<lparr>snap_version = 1, snap_resonanceScore = 7,
                           snap_sections = [(''turningPoints'', ''old'')],
                           snap_timestamp = 200\<rparr>]\<rparr>] ''story-1'' =
   Inr \<lparr>doc_storyId = ''story-1'', doc_clientId = ''client-a'', doc_version = 2,
          doc_sections = [(''futureVision'', ''new'')], doc_resonanceScore = 10,
          doc_createdAt = 100, doc_updatedAt = 200,
          doc_history = [\<lparr>snap_version = 1, snap_resonanceScore = 7,
                           snap_sections = [(''turningPoints'', ''old'')],
                           snap_timestamp = 200\<rparr>]\<rparr>"
proof -
  let ?d = "\<lparr>doc_storyId = ''story-1'', doc_clientId = ''client-a'', doc_version = 1,
       doc_sections = [(''turningPoints'', ''old'')], doc_resonanceScore = 7,
       doc_createdAt = 100, doc_updatedAt = 100, doc_history = []\<rparr>"
  let ?d' = "\<lparr>doc_storyId = ''story-1'', doc_clientId = ''client-a'', doc_version = 2,
          doc_sections = [(''futureVision'', ''new'')], doc_resonanceScore = 10,
          doc_createdAt = 100, doc_updatedAt = 200,
          doc_history = [\<lparr>snap_version = 1, snap_resonanceScore = 7,
                           snap_sections = [(''turningPoints'', ''old'')],
                           snap_timestamp = 200\<rparr>]\<rparr>"
  have s: "storyService_save [?d] ''story-1'' ''client-a'' [(''futureVision'', ''new'')] 10 200 =
      Inr ([?d'], ?d')"
    by (simp add: storyService_save_def validSave_def sectionKeys_def storyStore_save_def
        updatedDocument_def snapshotOf_def truncateHistory_def historyBound_def)
  show ?thesis
    using s save_fetch_roundtrip
      [of "[?d]" "''story-1''" "''client-a''" "[(''futureVision'', ''new'')]" 10 200 "[?d']" ?d']
    by simp
qed

subsection \<open>Validation\<close>

lemma storyStore_save_not_validation:
  "storyStore_save store sid cid S R now \<noteq> Inl ValidationError"
  by (simp add: storyStore_save_def split: option.splits)

lemma validSave_iff:
  "validSave S R = (0 \<le> R \<and> R \<le> 10 \<and> (\<forall>k \<in> fst ` set S. k \<in> set sectionKeys))"
  by (auto simp: validSave_def list_all_iff)

text \<open>
  Claim C5: the story service answers \<open>ValidationError\<close> exactly when the score is
  outside [0,10] or some section key is not one of the five fixed keys; otherwise its
  result is that of \<open>StoryStore.save\<close>.  A request that fails validation gets
  \<open>ValidationError\<close> whatever the store holds and returns no store, and
  \<open>StoryStore.save\<close> itself never answers \<open>ValidationError\<close>.  The scores 0 and 10
  pass; 10.01 and -0.01 are rejected.
\<close>

theorem storyService_validation:
  "(storyService_save store sid cid S R now = Inl ValidationError) =
     (\<not> (0 \<le> R \<and> R \<le> 10 \<and> (\<forall>k \<in> fst ` set S. k \<in> set sectionKeys))) \<and>
   (0 \<le> R \<and> R \<le> 10 \<and> (\<forall>k \<in> fst ` set S. k \<in> set sectionKeys) \<longrightarrow>
      storyService_save store sid cid S R now = storyStore_save store sid cid S R now) \<and>
   set sectionKeys =
     {''guidingNarrative'', ''turningPoints'', ''emergingThemes'', ''uniqueStrengths'',
      ''futureVision''} \<and>
   ((\<forall>k \<in> fst ` set S. k \<in> set sectionKeys) \<longrightarrow>
      storyService_save store sid cid S 0 now = storyStore_save store sid cid S 0 now \<and>
      storyService_save store sid cid S 10 now = storyStore_save store sid cid S 10 now) \<and>
   storyService_save store sid cid S 10.01 now = Inl ValidationError \<and>
   storyService_save store sid cid S (- 0.01) now = Inl ValidationError"
proof -
  have a: "(storyService_save store sid cid S R now = Inl ValidationError) =
     (\<not> (0 \<le> R \<and> R \<le> 10 \<and> (\<forall>k \<in> fst ` set S. k \<in> set sectionKeys)))"
    using storyStore_save_not_validation [of store sid cid S R now]
    by (simp add: storyService_save_def validSave_iff)
  have b: "0 \<le> R \<and> R \<le> 10 \<and> (\<forall>k \<in> fst ` set S. k \<in> set sectionKeys) \<longrightarrow>
      storyService_save store sid cid S R now = storyStore_save store sid cid S R now"
    by (simp add: storyService_save_def validSave_iff)
  have c: "set sectionKeys =
     {''guidingNarrative'', ''turningPoints'', ''emergingThemes'', ''uniqueStrengths'',
      ''futureVision''}"
    by (simp add: sectionKeys_def)
  have d: "(\<forall>k \<in> fst ` set S. k \<in> set sectionKeys) \<longrightarrow>
      storyService_save store sid cid S 0 now = storyStore_save store sid cid S 0 now \<and>
      storyService_save store sid cid S 10 now = storyStore_save store sid cid S 10 now"
    by (simp add: storyService_save_def validSave_iff)
  have e: "storyService_save store sid cid S 10.01 now = Inl ValidationError \<and>
      storyService_save store sid cid S (- 0.01) now = Inl ValidationError"
    by (simp add: storyService_save_def validSave_iff)
  show ?thesis using a b c d e by blast
qed

theorem storyService_validation_witness:
  "storyService_save [] ''story-1'' ''client-a'' [(''futureVision'', ''x'')] 10 5 =
     Inl NotFoundError \<and>
   storyService_save [] ''story-1'' ''client-a'' [(''futureVision'', ''x'')] 0 5 =
     Inl NotFoundError \<and>
   storyService_save [] ''story-1'' ''client-a'' [(''epilogue'', ''x'')] 5 5 =
     Inl ValidationError"
proof -
  have k: "\<forall>k \<in> fst ` set [(''futureVision'', ''x'')]. k \<in> set sectionKeys"
    by (simp add: sectionKeys_def)
  have n: "\<not> (\<forall>k \<in> fst ` set [(''epilogue'', ''x'')]. k \<in> set sectionKeys)"
    by (simp add: sectionKeys_def)
  have nf: "storyStore_save [] ''story-1'' ''client-a'' [(''futureVision'', ''x'')] 10 5 =
      Inl NotFoundError"
      "storyStore_save [] ''story-1'' ''client-a'' [(''futureVision'', ''x'')] 0 5 =
      Inl NotFoundError"
    by (simp_all add: storyStore_save_def)
  show ?thesis
    using k n nf
      storyService_validation [of "[]" "''story-1''" "''client-a''" "[(''futureVision'', ''x'')]" 10 5]
      storyService_validation [of "[]" "''story-1''" "''client-a''" "[(''epilogue'', ''x'')]" 5 5]
    by simp
qed

subsection \<open>Sequences of saves\<close>

lemma saveAll_ok:
  "find (\<lambda>x. doc_storyId x = sid) store = Some d \<Longrightarrow> doc_clientId d = cid \<Longrightarrow>
   \<exists>store'. saveAll store sid cid reqs = Inr store' \<and>
     find (\<lambda>x. doc_storyId x = sid) store' = Some (savedDocument d reqs)"
proof (induction reqs arbitrary: store d)
  case Nil
  then show ?case by simp
next
  case (Cons r reqs)
  obtain S R now where r: "r = (S, R, now)" by (cases r)
  let ?d' = "updatedDocument d S R now"
  have sid: "doc_storyId d = sid" using find_sat [OF Cons.prems(1)] .
  have f: "find (\<lambda>x. doc_storyId x = sid) (putDocument ?d' store) = Some ?d'"
    using Cons.prems(1) sid by (simp add: find_putDocument updatedDocument_ids)
  have c: "doc_clientId ?d' = cid" using Cons.prems(2) by (simp add: updatedDocument_ids)
  from Cons.IH [OF f c] obtain store' where
    "saveAll (putDocument ?d' store) sid cid reqs = Inr store'"
    "find (\<lambda>x. doc_storyId x = sid) store' = Some (savedDocument ?d' reqs)"
    by blast
  then show ?case
    using Cons.prems by (simp add: r storyStore_save_ok)
qed

lemma savedDocument_version: "doc_version (savedDocument d reqs) = doc_version d + length reqs"
  by (induction d reqs rule: savedDocument.induct) (simp_all add: updatedDocument_def)

lemma truncateHistory_append:
  "truncateHistory (truncateHistory h @ es) = truncateHistory (h @ es)"
proof (cases "length h \<le> historyBound")
  case True
  then show ?thesis by (simp add: truncateHistory_def)
next
  case False
  then have "length h + length es - (length h - historyBound + historyBound) +
       (length h - historyBound) = length h + length es - historyBound"
    by arith
  then show ?thesis by (simp add: truncateHistory_def)
qed

lemma truncateHistory_length: "length (truncateHistory h) = min (length h) historyBound"
  by (simp add: truncateHistory_def)

lemma truncateHistory_short: "length h \<le> historyBound \<Longrightarrow> truncateHistory h = h"
  by (simp add: truncateHistory_def)

lemma updatedDocument_history_bound:
  "length (doc_history (updatedDocument d S R now)) \<le> historyBound"
  by (simp add: updatedDocument_def truncateHistory_length)

lemma savedDocument_history:
  "length (doc_history d) \<le> historyBound \<Longrightarrow>
   doc_history (savedDocument d reqs) = truncateHistory (doc_history d @ snapshots d reqs)"
proof (induction d reqs rule: savedDocument.induct)
  case (1 d)
  then show ?case by (simp add: truncateHistory_short)
next
  case (2 d S R now rest)
  have "doc_history (savedDocument (updatedDocument d S R now) rest) =
      truncateHistory (doc_history (updatedDocument d S R now) @
        snapshots (updatedDocument d S R now) rest)"
    by (rule "2.IH") (rule updatedDocument_history_bound)
  also have "\<dots> = truncateHistory ((doc_history d @ [snapshotOf d now]) @
        snapshots (updatedDocument d S R now) rest)"
    by (simp add: updatedDocument_def truncateHistory_append)
  finally show ?case by simp
qed

lemma snapshots_length: "length (snapshots d reqs) = length reqs"
  by (induction d reqs rule: snapshots.induct) simp_all

lemma snapshots_nth:
  "i < length reqs \<Longrightarrow>
   snap_version (snapshots d reqs ! i) = doc_version d + i \<and>
   snap_sections (snapshots d reqs ! i) =
     (if i = 0 then doc_sections d else fst (reqs ! (i - 1))) \<and>
   snap_resonanceScore (snapshots d reqs ! i) =
     (if i = 0 then doc_resonanceScore d else fst (snd (reqs ! (i - 1)))) \<and>
   snap_timestamp (snapshots d reqs ! i) = snd (snd (reqs ! i))"
proof (induction d reqs arbitrary: i rule: snapshots.induct)
  case (1 d)
  then show ?case by simp
next
  case (2 d S R now rest)
  show ?case
  proof (cases i)
    case 0
    then show ?thesis by (simp add: snapshotOf_def)
  next
    case (Suc j)
    then have j: "j < length rest" using "2.prems" by simp
    show ?thesis
      using "2.IH" [OF j] Suc
      by (cases j) (simp_all add: updatedDocument_def)
  qed
qed

text \<open>
  Claim C1: take a document that exists in the store and any sequence of \<open>N\<close> saves by
  its owner.  All of them succeed, and afterwards the version of the document is the
  version before plus \<open>N\<close>, which is \<open>1 + N\<close> for a document that started at version 1,
  as a new document does; a history of at most 10 entries stays so.  For a document
  that started with an empty history, as a new document does, the history afterwards has
  \<open>min N 10\<close> entries, and the entry at position \<open>i\<close> is the snapshot taken by save
  number \<open>N - min N 10 + i + 1\<close>: its version is the version before that save, and its
  sections and score are those the document had before that save (the initial ones for
  the first save, those of the previous save otherwise).  The versions in the history
  increase strictly, so the entries are ordered oldest to newest and the oldest are the
  ones dropped.
\<close>

theorem save_sequence_history:
  assumes "find (\<lambda>x. doc_storyId x = sid) store = Some d"
    and "doc_clientId d = cid"
  shows "\<exists>store' d'.
     saveAll store sid cid reqs = Inr store' \<and>
     fetchById store' sid = Inr d' \<and>
     doc_version d' = doc_version d + length reqs \<and>
     (doc_version d = 1 \<longrightarrow> doc_version d' = 1 + length reqs) \<and>
     (length (doc_history d) \<le> 10 \<longrightarrow> length (doc_history d') \<le> 10) \<and>
     (doc_history d = [] \<longrightarrow>
        length (doc_history d') = min (length reqs) 10 \<and>
        (\<forall>i < length (doc_history d').
           snap_version (doc_history d' ! i) =
             doc_version d + (length reqs - min (length reqs) 10 + i) \<and>
           snap_sections (doc_history d' ! i) =
             (if length reqs - min (length reqs) 10 + i = 0 then doc_sections d
              else fst (reqs ! (length reqs - min (length reqs) 10 + i - 1))) \<and>
           snap_resonanceScore (doc_history d' ! i) =
             (if length reqs - min (length reqs) 10 + i = 0 then doc_resonanceScore d
              else fst (snd (reqs ! (length reqs - min (length reqs) 10 + i - 1))))) \<and>
        sorted_wrt (<) (map snap_version (doc_history d')))"
proof -
  let ?n = "length reqs"
  let ?k = "?n - min ?n 10"
  obtain store' where sv: "saveAll store sid cid reqs = Inr store'"
    and f: "find (\<lambda>x. doc_storyId x = sid) store' = Some (savedDocument d reqs)"
    using saveAll_ok [OF assms(1,2)] by blast
  let ?d' = "savedDocument d reqs"
  have fetch: "fetchById store' sid = Inr ?d'" by (simp add: fetchById_def f)
  have ver: "doc_version ?d' = doc_version d + ?n" by (simp add: savedDocument_version)
  have ver1: "doc_version d = 1 \<longrightarrow> doc_version ?d' = 1 + ?n" by (simp add: ver)
  have bound: "length (doc_history d) \<le> 10 \<longrightarrow> length (doc_history ?d') \<le> 10"
    using savedDocument_history [of d reqs]
    by (simp add: truncateHistory_length historyBound_def)
  have fresh: "length (doc_history ?d') = min ?n 10 \<and>
        (\<forall>i < length (doc_history ?d').
           snap_version (doc_history ?d' ! i) = doc_version d + (?k + i) \<and>
           snap_sections (doc_history ?d' ! i) =
             (if ?k + i = 0 then doc_sections d else fst (reqs ! (?k + i - 1))) \<and>
           snap_resonanceScore (doc_history ?d' ! i) =
             (if ?k + i = 0 then doc_resonanceScore d else fst (snd (reqs ! (?k + i - 1))))) \<and>
        sorted_wrt (<) (map snap_version (doc_history ?d'))"
    if h: "doc_history d = []"
  proof -
    have hist: "doc_history ?d' = drop (?n - 10) (snapshots d reqs)"
      using savedDocument_history [of d reqs]
      by (simp add: h truncateHistory_def snapshots_length historyBound_def)
    have k: "?k = ?n - 10" by simp
    have len: "length (doc_history ?d') = min ?n 10"
      by (simp add: hist snapshots_length)
    have nth: "\<forall>i < length (doc_history ?d').
          snap_version (doc_history ?d' ! i) = doc_version d + (?k + i) \<and>
          snap_sections (doc_history ?d' ! i) =
            (if ?k + i = 0 then doc_sections d else fst (reqs ! (?k + i - 1))) \<and>
          snap_resonanceScore (doc_history ?d' ! i) =
            (if ?k + i = 0 then doc_resonanceScore d else fst (snd (reqs ! (?k + i - 1))))"
    proof (intro allI impI)
      fix i assume i: "i < length (doc_history ?d')"
      then have b: "?k + i < ?n" unfolding len by arith
      have e: "doc_history ?d' ! i = snapshots d reqs ! (?k + i)"
        using b by (simp only: hist k) (simp add: snapshots_length)
      show "snap_version (doc_history ?d' ! i) = doc_version d + (?k + i) \<and>
          snap_sections (doc_history ?d' ! i) =
            (if ?k + i = 0 then doc_sections d else fst (reqs ! (?k + i - 1))) \<and>
          snap_resonanceScore (doc_history ?d' ! i) =
            (if ?k + i = 0 then doc_resonanceScore d else fst (snd (reqs ! (?k + i - 1))))"
        using snapshots_nth [OF b, of d] by (simp only: e)
    qed
    have sorted: "sorted_wrt (<) (map snap_version (doc_history ?d'))"
    proof (simp only: sorted_wrt_iff_nth_less length_map, intro allI impI)
      fix i j assume ij: "i < j" and j: "j < length (doc_history ?d')"
      then have i: "i < length (doc_history ?d')" by simp
      show "map snap_version (doc_history ?d') ! i < map snap_version (doc_history ?d') ! j"
        using nth i j ij by simp
    qed
    show ?thesis using len nth sorted by blast
  qed
  show ?thesis using sv fetch ver ver1 bound fresh by blast
qed

lemma saveAll_single:
  "doc_storyId d = sid \<Longrightarrow> doc_clientId d = cid \<Longrightarrow>
   saveAll [d] sid cid reqs = Inr [savedDocument d reqs]"
proof (induction reqs arbitrary: d)
  case Nil
  then show ?case by simp
next
  case (Cons r reqs)
  obtain S R now where r: "r = (S, R, now)" by (cases r)
  have "saveAll [updatedDocument d S R now] sid cid reqs =
      Inr [savedDocument (updatedDocument d S R now) reqs]"
    using Cons.prems by (intro Cons.IH) (simp_all add: updatedDocument_ids)
  then show ?case using Cons.prems by (simp add: r storyStore_save_def updatedDocument_ids)
qed

theorem save_sequence_history_witness:
  "(case saveAll [\<lparr>doc_storyId = ''story-1'', doc_clientId = ''client-a'', doc_version = 1, doc_sections = [], doc_resonanceScore = 7, doc_createdAt = 100, doc_updatedAt = 100, doc_history = []\<rparr>] ''story-1'' ''client-a'' [([(''futureVision'', ''v1'')], 1, 101), ([(''futureVision'', ''v2'')], 2, 102), ([(''futureVision'', ''v3'')], 3, 103), ([(''futureVision'', ''v4'')], 4, 104), ([(''futureVision'', ''v5'')], 5, 105), ([(''futureVision'', ''v6'')], 6, 106), ([(''futureVision'', ''v7'')], 7, 107), ([(''futureVision'', ''v8'')], 8, 108), ([(''futureVision'', ''v9'')], 9, 109), ([(''futureVision'', ''v10'')], 10, 110), ([(''futureVision'', ''v11'')], 0, 111)] of
      Inl e \<Rightarrow> False
    | Inr store' \<Rightarrow>
        (case fetchById store' ''story-1'' of
           Inl e \<Rightarrow> False
         | Inr d' \<Rightarrow>
             doc_version d' = 12 \<and>
             map snap_version (doc_history d') = [2, 3, 4, 5, 6, 7, 8, 9, 10, 11] \<and>
             map snap_resonanceScore (doc_history d') = [1, 2, 3, 4, 5, 6, 7, 8, 9, 10] \<and>
             map snap_sections (doc_history d') =
               [[(''futureVision'', ''v1'')], [(''futureVision'', ''v2'')],
                [(''futureVision'', ''v3'')], [(''futureVision'', ''v4'')],
                [(''futureVision'', ''v5'')], [(''futureVision'', ''v6'')],
                [(''futureVision'', ''v7'')], [(''futureVision'', ''v8'')],
                [(''futureVision'', ''v9'')], [(''futureVision'', ''v10'')]]))"
proof -
  let ?d = "\<lparr>doc_storyId = ''story-1'', doc_clientId = ''client-a'', doc_version = 1, doc_sections = [], doc_resonanceScore = 7, doc_createdAt = 100, doc_updatedAt = 100, doc_history = []\<rparr>"
  let ?reqs = "[([(''futureVision'', ''v1'')], 1, 101), ([(''futureVision'', ''v2'')], 2, 102), ([(''futureVision'', ''v3'')], 3, 103), ([(''futureVision'', ''v4'')], 4, 104), ([(''futureVision'', ''v5'')], 5, 105), ([(''futureVision'', ''v6'')], 6, 106), ([(''futureVision'', ''v7'')], 7, 107), ([(''futureVision'', ''v8'')], 8, 108), ([(''futureVision'', ''v9'')], 9, 109), ([(''futureVision'', ''v10'')], 10, 110), ([(''futureVision'', ''v11'')], 0, 111)]"
  let ?d' = "\<lparr>doc_storyId = ''story-1'', doc_clientId = ''client-a'', doc_version = 12, doc_sections = [(''futureVision'', ''v11'')], doc_resonanceScore = 0, doc_createdAt = 100, doc_updatedAt = 111, doc_history = [\<lparr>snap_version = 2, snap_resonanceScore = 1, snap_sections = [(''futureVision'', ''v1'')], snap_timestamp = 102\<rparr>, \<lparr>snap_version = 3, snap_resonanceScore = 2, snap_sections = [(''futureVision'', ''v2'')], snap_timestamp = 103\<rparr>, \<lparr>snap_version = 4, snap_resonanceScore = 3, snap_sections = [(''futureVision'', ''v3'')], snap_timestamp = 104\<rparr>, \<lparr>snap_version = 5, snap_resonanceScore = 4, snap_sections = [(''futureVision'', ''v4'')], snap_timestamp = 105\<rparr>, \<lparr>snap_version = 6, snap_resonanceScore = 5, snap_sections = [(''futureVision'', ''v5'')], snap_timestamp = 106\<rparr>, \<lparr>snap_version = 7, snap_resonanceScore = 6, snap_sections = [(''futureVision'', ''v6'')], snap_timestamp = 107\<rparr>, \<lparr>snap_version = 8, snap_resonanceScore = 7, snap_sections = [(''futureVision'', ''v7'')], snap_timestamp = 108\<rparr>, \<lparr>snap_version = 9, snap_resonanceScore = 8, snap_sections = [(''futureVision'', ''v8'')], snap_timestamp = 109\<rparr>, \<lparr>snap_version = 10, snap_resonanceScore = 9, snap_sections = [(''futureVision'', ''v9'')], snap_timestamp = 110\<rparr>, \<lparr>snap_version = 11, snap_resonanceScore = 10, snap_sections = [(''futureVision'', ''v10'')], snap_timestamp = 111\<rparr>]\<rparr>"
  have f: "find (\<lambda>x. doc_storyId x = ''story-1'') [?d] = Some ?d" by simp
  have c: "doc_clientId ?d = ''client-a''" by simp
  have v: "doc_version ?d = 1" by simp
  have h: "doc_history ?d = []" by simp
  have doc: "savedDocument ?d ?reqs = ?d'"
    by (simp add: updatedDocument_def snapshotOf_def truncateHistory_def historyBound_def)
  have "saveAll [?d] ''story-1'' ''client-a'' ?reqs = Inr [savedDocument ?d ?reqs]"
    by (rule saveAll_single) simp_all
  then have run: "saveAll [?d] ''story-1'' ''client-a'' ?reqs = Inr [?d']"
    by (simp only: doc)
  have fetch: "fetchById [?d'] ''story-1'' = Inr ?d'" by (simp add: fetchById_def)
  have thesis': "doc_version ?d' = 12 \<and>
      map snap_version (doc_history ?d') = [2, 3, 4, 5, 6, 7, 8, 9, 10, 11] \<and>
      map snap_resonanceScore (doc_history ?d') = [1, 2, 3, 4, 5, 6, 7, 8, 9, 10] \<and>
      map snap_sections (doc_history ?d') =
               [[(''futureVision'', ''v1'')], [(''futureVision'', ''v2'')],
                [(''futureVision'', ''v3'')], [(''futureVision'', ''v4'')],
                [(''futureVision'', ''v5'')], [(''futureVision'', ''v6'')],
                [(''futureVision'', ''v7'')], [(''futureVision'', ''v8'')],
                [(''futureVision'', ''v9'')], [(''futureVision'', ''v10'')]]"
    by simp
  show ?thesis
    using save_sequence_history [OF f c, of ?reqs] v h thesis'
    by (simp only: run fetch sum.case)
qed

end
